theory Spec2Isabelle
  imports Main "HOL-Library.AList" "HOL-Library.Word"
begin

section \<open>JavaScript strings\<close>

text \<open>
  A JavaScript string is a sequence of UTF-16 code units, each a 16-bit word: \<open>length\<close>,
  \<open>slice\<close> and the comparisons count code units, as the program does. \<open>lit\<close> gives the
  string that a literal of the program denotes (every literal of the program is ASCII).
\<close>

type_synonym unit16 = "16 word"

type_synonym jstring = "unit16 list"

definition lit :: "string \<Rightarrow> jstring" where
  "lit s = map of_char s"

text \<open>
  \<open>toLowerCase\<close> on a string of code units below 256 maps A..Z and the Latin-1 capitals
  (0xC0..0xDE without the multiplication sign 0xD7) to the letter 32 places later and leaves
  every other code unit alone. \<open>trim\<close> removes the white space and the line terminators
  of ECMAScript from both ends.
\<close>

definition toLowerUnit :: "unit16 \<Rightarrow> unit16" where
  "toLowerUnit u =
     (if (0x41 \<le> u \<and> u \<le> 0x5A) \<or> (0xC0 \<le> u \<and> u \<le> 0xDE \<and> u \<noteq> 0xD7)
      then u + 0x20 else u)"

definition isWhiteSpace :: "unit16 \<Rightarrow> bool" where
  "isWhiteSpace u =
     (u \<in> {0x9, 0xA, 0xB, 0xC, 0xD, 0x20, 0xA0, 0x1680, 0x2028, 0x2029, 0x202F, 0x205F, 0x3000, 0xFEFF}
      \<or> (0x2000 \<le> u \<and> u \<le> 0x200A))"

definition trim :: "jstring \<Rightarrow> jstring" where
  "trim s = rev (dropWhile isWhiteSpace (rev (dropWhile isWhiteSpace s)))"

fun startsWith :: "jstring \<Rightarrow> jstring \<Rightarrow> bool" where
  "startsWith s [] = True"
| "startsWith [] (p # ps) = False"
| "startsWith (c # cs) (p # ps) = (c = p \<and> startsWith cs ps)"


fun includes_str :: "jstring \<Rightarrow> jstring \<Rightarrow> bool" where
  "includes_str [] p = (p = [])"
| "includes_str (c # cs) p = (startsWith (c # cs) p \<or> includes_str cs p)"

text \<open>\<open>s.replace(pat, rep)\<close> with a string pattern: only the first occurrence is replaced.\<close>

fun replace_first :: "jstring \<Rightarrow> jstring \<Rightarrow> jstring \<Rightarrow> jstring" where
  "replace_first [] pat rep = (if pat = [] then rep else [])"
| "replace_first (c # cs) pat rep =
     (if startsWith (c # cs) pat then rep @ drop (length pat) (c # cs)
      else c # replace_first cs pat rep)"

text \<open>\<open>xs.join(sep)\<close>.\<close>

fun join :: "jstring \<Rightarrow> jstring list \<Rightarrow> jstring" where
  "join sep [] = []"
| "join sep [x] = x"
| "join sep (x # y # ys) = x @ sep @ join sep (y # ys)"

definition newline :: jstring where
  "newline = [0x0A]"

subsection \<open>Surrogates\<close>

text \<open>
  A code unit in 0xD800..0xDBFF followed by one in 0xDC00..0xDFFF is a surrogate pair, which
  stands for one code point above 0xFFFF; a surrogate that is not part of a pair is a lone
  surrogate. \<open>isWellFormed\<close> and \<open>toWellFormed\<close> are the JavaScript functions of these names:
  whether a string has no lone surrogate, and the string with every lone surrogate
  replaced by U+FFFD.
\<close>

definition isHighSurrogate :: "unit16 \<Rightarrow> bool" where
  "isHighSurrogate u = (0xD800 \<le> u \<and> u \<le> 0xDBFF)"

definition isLowSurrogate :: "unit16 \<Rightarrow> bool" where
  "isLowSurrogate u = (0xDC00 \<le> u \<and> u \<le> 0xDFFF)"

fun isWellFormed :: "jstring \<Rightarrow> bool" where
  "isWellFormed [] = True"
| "isWellFormed [u] = (\<not> isHighSurrogate u \<and> \<not> isLowSurrogate u)"
| "isWellFormed (u # v # us) =
     (if isHighSurrogate u \<and> isLowSurrogate v then isWellFormed us
      else \<not> isHighSurrogate u \<and> \<not> isLowSurrogate u \<and> isWellFormed (v # us))"

fun toWellFormed :: "jstring \<Rightarrow> jstring" where
  "toWellFormed [] = []"
| "toWellFormed [u] = [if isHighSurrogate u \<or> isLowSurrogate u then 0xFFFD else u]"
| "toWellFormed (u # v # us) =
     (if isHighSurrogate u \<and> isLowSurrogate v then u # v # toWellFormed us
      else (if isHighSurrogate u \<or> isLowSurrogate u then 0xFFFD else u) # toWellFormed (v # us))"

subsection \<open>UTF-8\<close>

text \<open>
  Node gives strings to the operating system, and takes them from it, in UTF-8: file names
  and, with the encoding \<open>utf-8\<close> (the default of \<open>fs.writeFile\<close>), file contents. A byte is a
  \<^typ>\<open>char\<close>. Encoding goes through the code points of the string, where a lone surrogate
  counts as U+FFFD; decoding gives U+FFFD for every maximal part of an ill-formed byte
  sequence.
\<close>

definition pairCodePoint :: "unit16 \<Rightarrow> unit16 \<Rightarrow> int" where
  "pairCodePoint u v = 0x10000 + (uint u - 0xD800) * 0x400 + (uint v - 0xDC00)"

fun codePoints :: "jstring \<Rightarrow> int list" where
  "codePoints [] = []"
| "codePoints [u] = [if isHighSurrogate u \<or> isLowSurrogate u then 0xFFFD else uint u]"
| "codePoints (u # v # us) =
     (if isHighSurrogate u \<and> isLowSurrogate v
      then pairCodePoint u v # codePoints us
      else (if isHighSurrogate u \<or> isLowSurrogate u then 0xFFFD else uint u) # codePoints (v # us))"

definition utf8Bytes :: "int \<Rightarrow> int list" where
  "utf8Bytes cp =
     (if cp < 0x80 then [cp]
      else if cp < 0x800 then [0xC0 + cp div 0x40, 0x80 + cp mod 0x40]
      else if cp < 0x10000 then [0xE0 + cp div 0x1000, 0x80 + cp div 0x40 mod 0x40, 0x80 + cp mod 0x40]
      else [0xF0 + cp div 0x40000, 0x80 + cp div 0x1000 mod 0x40, 0x80 + cp div 0x40 mod 0x40,
            0x80 + cp mod 0x40])"

text \<open>\<open>Buffer.from(s, 'utf8')\<close>.\<close>

definition encodeUtf8 :: "jstring \<Rightarrow> string" where
  "encodeUtf8 s = map char_of (concat (map utf8Bytes (codePoints s)))"

definition within :: "int \<Rightarrow> int \<Rightarrow> int \<Rightarrow> bool" where
  "within b lo hi = (lo \<le> b \<and> b \<le> hi)"

text \<open>
  The code points of a byte sequence. A lead byte fixes the number of continuation bytes and
  the range of the first one (which excludes overlong forms, surrogates and code points above
  0x10FFFF); where a byte does not continue the sequence, the bytes so far give one U+FFFD and
  decoding goes on at that byte.
\<close>

fun utf8CodePoints :: "int list \<Rightarrow> int list" where
  "utf8CodePoints [] = []"
| "utf8CodePoints (b # bs) =
     (if b < 0x80 then b # utf8CodePoints bs
      else if within b 0xC2 0xDF then
        (case bs of
           [] \<Rightarrow> [0xFFFD]
         | c # cs \<Rightarrow>
             if within c 0x80 0xBF
             then ((b - 0xC0) * 0x40 + (c - 0x80)) # utf8CodePoints cs
             else 0xFFFD # utf8CodePoints bs)
      else if within b 0xE0 0xEF then
        (case bs of
           [] \<Rightarrow> [0xFFFD]
         | c # cs \<Rightarrow>
             if within c (if b = 0xE0 then 0xA0 else 0x80) (if b = 0xED then 0x9F else 0xBF)
             then (case cs of
                     [] \<Rightarrow> [0xFFFD]
                   | d # ds \<Rightarrow>
                       if within d 0x80 0xBF
                       then ((b - 0xE0) * 0x1000 + (c - 0x80) * 0x40 + (d - 0x80)) # utf8CodePoints ds
                       else 0xFFFD # utf8CodePoints cs)
             else 0xFFFD # utf8CodePoints bs)
      else if within b 0xF0 0xF4 then
        (case bs of
           [] \<Rightarrow> [0xFFFD]
         | c # cs \<Rightarrow>
             if within c (if b = 0xF0 then 0x90 else 0x80) (if b = 0xF4 then 0x8F else 0xBF)
             then (case cs of
                     [] \<Rightarrow> [0xFFFD]
                   | d # ds \<Rightarrow>
                       if within d 0x80 0xBF
                       then (case ds of
                               [] \<Rightarrow> [0xFFFD]
                             | e # es \<Rightarrow>
                                 if within e 0x80 0xBF
                                 then ((b - 0xF0) * 0x40000 + (c - 0x80) * 0x1000 + (d - 0x80) * 0x40
                                         + (e - 0x80)) # utf8CodePoints es
                                 else 0xFFFD # utf8CodePoints ds)
                       else 0xFFFD # utf8CodePoints cs)
             else 0xFFFD # utf8CodePoints bs)
      else 0xFFFD # utf8CodePoints bs)"

definition utf16Units :: "int \<Rightarrow> jstring" where
  "utf16Units cp =
     (if cp < 0x10000 then [of_int cp]
      else [of_int (0xD800 + (cp - 0x10000) div 0x400), of_int (0xDC00 + (cp - 0x10000) mod 0x400)])"

text \<open>\<open>buffer.toString('utf8')\<close>.\<close>

definition decodeUtf8 :: "string \<Rightarrow> jstring" where
  "decodeUtf8 bytes = concat (map utf16Units (utf8CodePoints (map of_char bytes)))"

text \<open>A scalar value: a code point that is not a surrogate.\<close>

definition scalar :: "int \<Rightarrow> bool" where
  "scalar cp = (0 \<le> cp \<and> cp < 0x110000 \<and> \<not> (0xD800 \<le> cp \<and> cp \<le> 0xDFFF))"

section \<open>Values, exceptions, tool results\<close>

text \<open>
  The tools receive \<open>args: any\<close>: a value as \<open>JSON.parse\<close> produces them. A number is kept as
  the text \<open>String(n)\<close> gives for it; the program never computes with one.
\<close>

datatype jsval =
    JUndefined
  | JNull
  | JBool bool
  | JNum jstring
  | JStr jstring
  | JArr "jsval list"
  | JObj "(jstring \<times> jsval) list"

text \<open>An exception is an \<open>Error\<close> object; the program only ever reads its \<open>message\<close>.\<close>

datatype exn = Error (message: jstring)

text \<open>
  The objects the tools resolve with:
  \<open>{content}\<close>, \<open>{success: true, message}\<close>, \<open>{files}\<close>, \<open>{output}\<close>, \<open>{error}\<close>
  and \<open>{cancelled: true, message}\<close>.
\<close>

datatype payload =
    Content jstring
  | Written jstring
  | Files "jstring list"
  | Output jstring
  | Failure jstring
  | Cancelled jstring

text \<open>
  \<open>String(v)\<close>, as a template literal applies it. An array joins its elements with commas,
  with nothing for \<open>null\<close> and \<open>undefined\<close>.
\<close>

fun toStr :: "jsval \<Rightarrow> jstring" and elemStr :: "jsval \<Rightarrow> jstring" where
  "toStr JUndefined = lit ''undefined''"
| "toStr JNull = lit ''null''"
| "toStr (JBool b) = (if b then lit ''true'' else lit ''false'')"
| "toStr (JNum n) = n"
| "toStr (JStr s) = s"
| "toStr (JArr xs) = join (lit '','') (map elemStr xs)"
| "toStr (JObj kvs) = lit ''[object Object]''"
| "elemStr v = (if v = JUndefined \<or> v = JNull then [] else toStr v)"

text \<open>
  Reading a field \<open>v.k\<close>, for the four field names the program reads (\<open>path\<close>, \<open>content\<close>,
  \<open>directory\<close>, \<open>command\<close>): a \<open>TypeError\<close> on \<open>null\<close> and \<open>undefined\<close>, the field of an object,
  \<open>undefined\<close> on everything else.
\<close>

fun getField :: "jsval \<Rightarrow> jstring \<Rightarrow> exn + jsval" where
  "getField JUndefined k = Inl (Error (lit ''Cannot read properties of undefined (reading '' @ k @ lit '')''))"
| "getField JNull k = Inl (Error (lit ''Cannot read properties of null (reading '' @ k @ lit '')''))"
| "getField (JObj kvs) k = Inr (case map_of kvs k of None \<Rightarrow> JUndefined | Some v \<Rightarrow> v)"
| "getField v k = Inr JUndefined"

section \<open>The file system\<close>

text \<open>
  A tree of directories and files without permissions. The names of the entries and the
  contents of the files are byte sequences. A resolved path is the list of its components
  below the root: JavaScript strings in the program, their UTF-8 encodings in the tree.
\<close>

datatype node = File string | Dir "(string \<times> node) list"

datatype errno = ENOENT | ENOTDIR | EISDIR

fun split_slash :: "jstring \<Rightarrow> jstring list" where
  "split_slash [] = [[]]"
| "split_slash (c # cs) =
     (if c = 0x2F then [] # split_slash cs
      else (case split_slash cs of [] \<Rightarrow> [[c]] | w # ws \<Rightarrow> (c # w) # ws))"

text \<open>The components are pushed on a stack; \<open>..\<close> pops one (at the root it stays there).\<close>

fun normalize :: "jstring list \<Rightarrow> jstring list \<Rightarrow> jstring list" where
  "normalize stack [] = rev stack"
| "normalize stack (c # cs) =
     (if c = [] \<or> c = lit ''.'' then normalize stack cs
      else if c = lit ''..'' then normalize (tl stack) cs
      else normalize (c # stack) cs)"

text \<open>\<open>path.resolve(p)\<close> (POSIX) in the working directory \<open>cwd\<close>; \<open>path.dirname\<close> of a resolved path.\<close>

definition path_resolve :: "jstring list \<Rightarrow> jstring \<Rightarrow> jstring list" where
  "path_resolve cwd p =
     (if startsWith p (lit ''/'') then normalize [] (split_slash p)
      else normalize (rev cwd) (split_slash p))"

definition path_dirname :: "jstring list \<Rightarrow> jstring list" where
  "path_dirname p = butlast p"

definition render :: "jstring list \<Rightarrow> jstring" where
  "render p = (if p = [] then lit ''/'' else concat (map (\<lambda>c. 0x2F # c) p))"

definition sysError :: "errno \<Rightarrow> jstring \<Rightarrow> jstring list \<Rightarrow> exn" where
  "sysError e syscall p =
     Error ((case e of
               ENOENT \<Rightarrow> lit ''ENOENT: no such file or directory, ''
             | ENOTDIR \<Rightarrow> lit ''ENOTDIR: not a directory, ''
             | EISDIR \<Rightarrow> lit ''EISDIR: illegal operation on a directory, '')
            @ syscall @ lit '' '' @ render p)"

text \<open>
  Every function of \<open>fs\<close> refuses a path with a NUL character, with a \<open>TypeError\<close>, before it
  touches the file system.
\<close>

definition hasNul :: "jstring list \<Rightarrow> bool" where
  "hasNul p = (0 \<in> set (concat p))"

definition nulError :: exn where
  "nulError = Error (lit ''The argument path must be a string, Uint8Array, or URL without null bytes'')"

fun lookup :: "node \<Rightarrow> string list \<Rightarrow> errno + node" where
  "lookup n [] = Inr n"
| "lookup (File c) (d # ds) = Inl ENOTDIR"
| "lookup (Dir es) (d # ds) =
     (case map_of es d of None \<Rightarrow> Inl ENOENT | Some n \<Rightarrow> lookup n ds)"

text \<open>\<open>mkdir -p\<close>: what \<open>fs.ensureDir\<close> does. It fails where a file stands on the way.\<close>

fun mkdirp :: "node \<Rightarrow> string list \<Rightarrow> errno + node" where
  "mkdirp (File c) p = Inl ENOTDIR"
| "mkdirp (Dir es) [] = Inr (Dir es)"
| "mkdirp (Dir es) (d # ds) =
     (case mkdirp (case map_of es d of None \<Rightarrow> Dir [] | Some n \<Rightarrow> n) ds of
        Inl e \<Rightarrow> Inl e
      | Inr n' \<Rightarrow> Inr (Dir (AList.update d n' es)))"

text \<open>Creating or overwriting the file at a path whose parent directory exists.\<close>

fun store :: "node \<Rightarrow> string list \<Rightarrow> string \<Rightarrow> errno + node" where
  "store n [] bytes = Inl EISDIR"
| "store (File c) (d # ds) bytes = Inl ENOTDIR"
| "store (Dir es) [d] bytes =
     (case map_of es d of
        Some (Dir sub) \<Rightarrow> Inl EISDIR
      | _ \<Rightarrow> Inr (Dir (AList.update d (File bytes) es)))"
| "store (Dir es) (d # ds) bytes =
     (case map_of es d of
        None \<Rightarrow> Inl ENOENT
      | Some n \<Rightarrow>
          (case store n ds bytes of
             Inl e \<Rightarrow> Inl e
           | Inr n' \<Rightarrow> Inr (Dir (AList.update d n' es))))"

section \<open>The process state and its effects\<close>

text \<open>
  What the terminal shows: \<open>console.log\<close> and \<open>console.error\<close> with their arguments,
  \<open>process.stdout.write\<close>, and the query of \<open>rl.question\<close>. \<open>Pretty r\<close> stands for the
  argument \<open>JSON.stringify(r, null, 2)\<close>.
\<close>

datatype logarg = S jstring | Pretty payload | E exn

datatype tty = Log "logarg list" | LogError "logarg list" | Stdout jstring | Prompt jstring

text \<open>A turn of the conversation, \<open>{role, parts: [{text}]}\<close>.\<close>

datatype turn = Turn (role: jstring) (body: jstring)

text \<open>
  A function call of a response chunk, \<open>{name, args}\<close>, as \<open>chunk.functionCalls()\<close> of the
  SDK gives it: \<open>args\<close> is an object, kept as the list of its members. A chunk: its text and
  what \<open>functionCalls()\<close> gives.
\<close>

datatype toolCall = ToolCall (callName: jstring) (callArgs: "(jstring \<times> jsval) list")

datatype chunk = Chunk (chunkText: jstring) (functionCalls: "toolCall list option")

text \<open>The executors of \<open>tools/filesystem.ts\<close> and \<open>tools/shell.ts\<close>, by the argument each was entered with.\<close>

datatype call =
    ReadFileCall jsval
  | WriteFileCall jsval
  | ListFilesCall jsval
  | ExecuteCommandCall jsval

text \<open>
  The state of the process and of its surroundings: the variable \<open>chatHistory\<close>, whether
  \<open>rl.close()\<close> has run, the terminal output so far, the lines the user will still type, the
  file system, and two records of what happened: \<open>calls\<close>, the executors entered so far, and
  \<open>requests\<close>, the \<open>contents\<close> of every request sent to the remote model. Nothing in the
  program reads the last two.
\<close>

record state =
  chatHistory :: "turn list"
  rlClosed :: bool
  console :: "tty list"
  stdin :: "jstring list"
  disk :: node
  calls :: "call list"
  requests :: "turn list list"

text \<open>
  What the program is given from outside: the working directory, the shell (\<open>execSync\<close>: the
  output or the exception, and what the command did to the file system), the remote model
  (\<open>generateContentStream\<close>: an exception, or the chunks of the stream and the exception that
  ends it early, if one does), and what \<open>toLowerCase\<close> gives for a string that has a code unit
  above 255, where it follows the case mappings of Unicode.
\<close>

record env =
  cwd :: "jstring list"
  execSync :: "jstring \<Rightarrow> node \<Rightarrow> (exn + jstring) \<times> node"
  generateContentStream :: "turn list \<Rightarrow> exn + (chunk list \<times> exn option)"
  toLowerCase_Unicode :: "jstring \<Rightarrow> jstring"

definition toLowerCase :: "env \<Rightarrow> jstring \<Rightarrow> jstring" where
  "toLowerCase ev s =
     (if list_all (\<lambda>u. u < 0x100) s then map toLowerUnit s else toLowerCase_Unicode ev s)"

text \<open>
  An asynchronous computation resolves with a value, rejects with an exception, or stays
  pending for ever: the user typed nothing more, so a callback of \<open>rl.question\<close> never runs.
\<close>

datatype 'a outcome = Ok 'a | Throw exn | Pending

type_synonym 'a io = "state \<Rightarrow> 'a outcome \<times> state"

definition returnIO :: "'a \<Rightarrow> 'a io" where
  "returnIO x = (\<lambda>s. (Ok x, s))"

definition throwIO :: "exn \<Rightarrow> 'a io" where
  "throwIO e = (\<lambda>s. (Throw e, s))"

definition bindIO :: "'a io \<Rightarrow> ('a \<Rightarrow> 'b io) \<Rightarrow> 'b io" where
  "bindIO m f =
     (\<lambda>s. case m s of
            (Ok x, s') \<Rightarrow> f x s'
          | (Throw e, s') \<Rightarrow> (Throw e, s')
          | (Pending, s') \<Rightarrow> (Pending, s'))"

text \<open>\<open>try { m } catch (error) { h error }\<close>.\<close>

definition catchIO :: "'a io \<Rightarrow> (exn \<Rightarrow> 'a io) \<Rightarrow> 'a io" where
  "catchIO m h =
     (\<lambda>s. case m s of
            (Throw e, s') \<Rightarrow> h e s'
          | (Ok x, s') \<Rightarrow> (Ok x, s')
          | (Pending, s') \<Rightarrow> (Pending, s'))"

definition liftE :: "exn + 'a \<Rightarrow> 'a io" where
  "liftE r = (case r of Inl e \<Rightarrow> throwIO e | Inr x \<Rightarrow> returnIO x)"

definition console_log :: "logarg list \<Rightarrow> unit io" where
  "console_log xs = (\<lambda>s. (Ok (), s\<lparr>console := console s @ [Log xs]\<rparr>))"

definition console_error :: "logarg list \<Rightarrow> unit io" where
  "console_error xs = (\<lambda>s. (Ok (), s\<lparr>console := console s @ [LogError xs]\<rparr>))"

definition stdout_write :: "jstring \<Rightarrow> unit io" where
  "stdout_write x = (\<lambda>s. (Ok (), s\<lparr>console := console s @ [Stdout x]\<rparr>))"

text \<open>\<open>rl.question(q, callback)\<close>: the query is shown, and the callback gets the next line.\<close>

definition question :: "jstring \<Rightarrow> jstring io" where
  "question q =
     (\<lambda>s. case stdin s of
            [] \<Rightarrow> (Pending, s\<lparr>console := console s @ [Prompt q]\<rparr>)
          | answer # rest \<Rightarrow> (Ok answer, s\<lparr>console := console s @ [Prompt q], stdin := rest\<rparr>))"

definition rl_close :: "unit io" where
  "rl_close = (\<lambda>s. (Ok (), s\<lparr>rlClosed := True\<rparr>))"

definition pushHistory :: "turn \<Rightarrow> unit io" where
  "pushHistory t = (\<lambda>s. (Ok (), s\<lparr>chatHistory := chatHistory s @ [t]\<rparr>))"

definition enter :: "call \<Rightarrow> unit io" where
  "enter c = (\<lambda>s. (Ok (), s\<lparr>calls := calls s @ [c]\<rparr>))"

text \<open>\<open>path.resolve(v)\<close> throws a \<open>TypeError\<close> unless \<open>v\<close> is a string.\<close>

definition resolve :: "env \<Rightarrow> jsval \<Rightarrow> jstring list io" where
  "resolve ev v =
     (case v of
        JStr p \<Rightarrow> returnIO (path_resolve (cwd ev) p)
      | _ \<Rightarrow> throwIO (Error (lit ''The paths[0] argument must be of type string'')))"

text \<open>
  \<open>fs.readFile(p, 'utf-8')\<close>: the bytes of the file, decoded.
\<close>

definition fs_readFile :: "jstring list \<Rightarrow> jstring io" where
  "fs_readFile p =
     (\<lambda>s. if hasNul p then (Throw nulError, s)
          else case lookup (disk s) (map encodeUtf8 p) of
            Inl e \<Rightarrow> (Throw (sysError e (lit ''open'') p), s)
          | Inr (Dir es) \<Rightarrow> (Throw (sysError EISDIR (lit ''read'') p), s)
          | Inr (File bytes) \<Rightarrow> (Ok (decodeUtf8 bytes), s))"

definition fs_ensureDir :: "jstring list \<Rightarrow> unit io" where
  "fs_ensureDir d =
     (\<lambda>s. if hasNul d then (Throw nulError, s)
          else case mkdirp (disk s) (map encodeUtf8 d) of
            Inl e \<Rightarrow> (Throw (sysError e (lit ''mkdir'') d), s)
          | Inr n \<Rightarrow> (Ok (), s\<lparr>disk := n\<rparr>))"

text \<open>
  \<open>fs.writeFile(p, data)\<close> throws a \<open>TypeError\<close> unless \<open>data\<close> is a string (no buffers here);
  the file gets the bytes of the string in UTF-8.
\<close>

definition fs_writeFile :: "jstring list \<Rightarrow> jsval \<Rightarrow> unit io" where
  "fs_writeFile p v =
     (case v of
        JStr content \<Rightarrow>
          (\<lambda>s. if hasNul p then (Throw nulError, s)
               else case store (disk s) (map encodeUtf8 p) (encodeUtf8 content) of
                 Inl e \<Rightarrow> (Throw (sysError e (lit ''open'') p), s)
               | Inr n \<Rightarrow> (Ok (), s\<lparr>disk := n\<rparr>))
      | _ \<Rightarrow> throwIO (Error (lit ''The data argument must be of type string or an instance of Buffer, TypedArray, or DataView'')))"

text \<open>\<open>fs.readdir(d)\<close>: the names of the entries, decoded.\<close>

definition fs_readdir :: "jstring list \<Rightarrow> jstring list io" where
  "fs_readdir d =
     (\<lambda>s. if hasNul d then (Throw nulError, s)
          else case lookup (disk s) (map encodeUtf8 d) of
            Inl e \<Rightarrow> (Throw (sysError e (lit ''scandir'') d), s)
          | Inr (File c) \<Rightarrow> (Throw (sysError ENOTDIR (lit ''scandir'') d), s)
          | Inr (Dir es) \<Rightarrow> (Ok (map decodeUtf8 (remdups (map fst es))), s))"

text \<open>\<open>execSync(v, {encoding: 'utf-8'})\<close> throws a \<open>TypeError\<close> unless \<open>v\<close> is a string.\<close>

definition child_process_execSync :: "env \<Rightarrow> jsval \<Rightarrow> jstring io" where
  "child_process_execSync ev v =
     (case v of
        JStr command \<Rightarrow>
          (\<lambda>s. case execSync ev command (disk s) of
                 (Inl e, n) \<Rightarrow> (Throw e, s\<lparr>disk := n\<rparr>)
               | (Inr out, n) \<Rightarrow> (Ok out, s\<lparr>disk := n\<rparr>))
      | _ \<Rightarrow> throwIO (Error (lit ''The command argument must be of type string'')))"

section \<open>tools/filesystem.ts and tools/shell.ts\<close>

text \<open>Each executor is the body of its \<open>try\<close> block, and the \<open>catch\<close> around it.\<close>

definition readFile_try :: "env \<Rightarrow> jsval \<Rightarrow> payload io" where
  "readFile_try ev args =
     bindIO (liftE (getField args (lit ''path''))) (\<lambda>p.
     bindIO (resolve ev p) (\<lambda>filePath.
     bindIO (fs_readFile filePath) (\<lambda>content.
     returnIO (Content content))))"

definition readFile :: "env \<Rightarrow> jsval \<Rightarrow> payload io" where
  "readFile ev args =
     bindIO (enter (ReadFileCall args)) (\<lambda>_.
     catchIO (readFile_try ev args)
       (\<lambda>error. returnIO (Failure (lit ''Failed to read file: '' @ message error))))"

definition writeFile_try :: "env \<Rightarrow> jsval \<Rightarrow> payload io" where
  "writeFile_try ev args =
     bindIO (liftE (getField args (lit ''path''))) (\<lambda>p.
     bindIO (resolve ev p) (\<lambda>filePath.
     bindIO (fs_ensureDir (path_dirname filePath)) (\<lambda>_.
     bindIO (liftE (getField args (lit ''content''))) (\<lambda>content.
     bindIO (fs_writeFile filePath content) (\<lambda>_.
     returnIO (Written (lit ''Successfully wrote to '' @ toStr p)))))))"

definition writeFile :: "env \<Rightarrow> jsval \<Rightarrow> payload io" where
  "writeFile ev args =
     bindIO (enter (WriteFileCall args)) (\<lambda>_.
     catchIO (writeFile_try ev args)
       (\<lambda>error. returnIO (Failure (lit ''Failed to write file: '' @ message error))))"

definition listFiles_try :: "env \<Rightarrow> jsval \<Rightarrow> payload io" where
  "listFiles_try ev args =
     bindIO (liftE (getField args (lit ''directory''))) (\<lambda>d.
     bindIO (resolve ev d) (\<lambda>dirPath.
     bindIO (fs_readdir dirPath) (\<lambda>files.
     returnIO (Files files))))"

definition listFiles :: "env \<Rightarrow> jsval \<Rightarrow> payload io" where
  "listFiles ev args =
     bindIO (enter (ListFilesCall args)) (\<lambda>_.
     catchIO (listFiles_try ev args)
       (\<lambda>error. returnIO (Failure (lit ''Failed to list files: '' @ message error))))"

text \<open>
  Every exception of the model is an \<open>Error\<close> object, so of
  \<open>error instanceof Error ? error.message : String(error)\<close> the first branch is the one taken.
\<close>

definition executeCommand_try :: "env \<Rightarrow> jsval \<Rightarrow> payload io" where
  "executeCommand_try ev args =
     bindIO (liftE (getField args (lit ''command''))) (\<lambda>command.
     bindIO (child_process_execSync ev command) (\<lambda>out.
     returnIO (Output out)))"

definition executeCommand :: "env \<Rightarrow> jsval \<Rightarrow> payload io" where
  "executeCommand ev args =
     bindIO (enter (ExecuteCommandCall args)) (\<lambda>_.
     catchIO (executeCommand_try ev args)
       (\<lambda>error. returnIO (Failure (lit ''Command execution failed: '' @ message error))))"

section \<open>index.ts\<close>

subsection \<open>\<open>JSON.stringify\<close> of a tool result\<close>

text \<open>
  A string in JSON text: the quotation mark, the backslash and the control characters are
  escaped, a lone surrogate is written as a backslash, \<open>u\<close> and its four hexadecimal digits, and
  every other code unit (the two of a surrogate pair too) stands for itself.
\<close>

definition hexDigit :: "int \<Rightarrow> unit16" where
  "hexDigit n = lit ''0123456789abcdef'' ! nat n"

definition escapeUnit :: "unit16 \<Rightarrow> jstring" where
  "escapeUnit u =
     (if u = 0x22 then [0x5C, 0x22]
      else if u = 0x5C then [0x5C, 0x5C]
      else if u = 0x08 then 0x5C # lit ''b''
      else if u = 0x0C then 0x5C # lit ''f''
      else if u = 0x0A then 0x5C # lit ''n''
      else if u = 0x0D then 0x5C # lit ''r''
      else if u = 0x09 then 0x5C # lit ''t''
      else if u < 0x20 \<or> isHighSurrogate u \<or> isLowSurrogate u
      then 0x5C # lit ''u'' @
             [hexDigit (uint u div 0x1000), hexDigit (uint u div 0x100 mod 0x10),
              hexDigit (uint u div 0x10 mod 0x10), hexDigit (uint u mod 0x10)]
      else [u])"

fun quoteUnits :: "jstring \<Rightarrow> jstring" where
  "quoteUnits [] = []"
| "quoteUnits [u] = escapeUnit u"
| "quoteUnits (u # v # us) =
     (if isHighSurrogate u \<and> isLowSurrogate v then u # v # quoteUnits us
      else escapeUnit u @ quoteUnits (v # us))"

definition quoteJSON :: "jstring \<Rightarrow> jstring" where
  "quoteJSON s = 0x22 # quoteUnits s @ [0x22]"

definition member :: "jstring \<Rightarrow> jstring \<Rightarrow> jstring" where
  "member k v = quoteJSON k @ lit '':'' @ v"

fun stringify :: "payload \<Rightarrow> jstring" where
  "stringify (Content c) = lit ''{'' @ member (lit ''content'') (quoteJSON c) @ lit ''}''"
| "stringify (Written m) =
     lit ''{'' @ member (lit ''success'') (lit ''true'') @ lit '','' @ member (lit ''message'') (quoteJSON m) @ lit ''}''"
| "stringify (Files fs) =
     lit ''{'' @ member (lit ''files'') (lit ''['' @ join (lit '','') (map quoteJSON fs) @ lit '']'') @ lit ''}''"
| "stringify (Output out) = lit ''{'' @ member (lit ''output'') (quoteJSON out) @ lit ''}''"
| "stringify (Failure m) = lit ''{'' @ member (lit ''error'') (quoteJSON m) @ lit ''}''"
| "stringify (Cancelled m) =
     lit ''{'' @ member (lit ''cancelled'') (lit ''true'') @ lit '','' @ member (lit ''message'') (quoteJSON m) @ lit ''}''"

subsection \<open>The tool registry\<close>

definition systemPrompt :: jstring where
  "systemPrompt = concat (map (\<lambda>l. l @ newline)
     [[],
      lit ''You are a coding assistant that can help users write code, fix bugs, and understand programming concepts.'',
      lit ''You have access to the following tools:'',
      [],
      lit ''1. readFile - Read content from a file'',
      lit ''2. writeFile - Write content to a file (requires user confirmation)'',
      lit ''3. listFiles - List files in a directory'',
      lit ''4. executeCommand - Execute shell commands (requires user confirmation)'',
      [],
      lit ''For any file or command operations that modify the system, you should:'',
      lit ''1. Explain what you'' @ [0x27] @ lit ''re going to do'',
      lit ''2. Ask for confirmation before proceeding'',
      lit ''3. Execute the operation only after receiving confirmation'',
      [],
      lit ''Think step by step when solving problems, and consider best practices for the programming language in use.''])"

text \<open>
  \<open>v.slice(0, 100)\<close> and \<open>v.length > 100\<close>: strings and arrays have both; \<open>null\<close> and
  \<open>undefined\<close> have no properties, and no other value of \<open>JSON.parse\<close> has a function \<open>slice\<close>.
\<close>

fun slice100 :: "jsval \<Rightarrow> exn + jsval" where
  "slice100 (JStr s) = Inr (JStr (take 100 s))"
| "slice100 (JArr xs) = Inr (JArr (take 100 xs))"
| "slice100 JUndefined = Inl (Error (lit ''Cannot read properties of undefined (reading slice)''))"
| "slice100 JNull = Inl (Error (lit ''Cannot read properties of null (reading slice)''))"
| "slice100 v = Inl (Error (lit ''args.content.slice is not a function''))"

fun longerThan100 :: "jsval \<Rightarrow> bool" where
  "longerThan100 (JStr s) = (length s > 100)"
| "longerThan100 (JArr xs) = (length xs > 100)"
| "longerThan100 v = False"

text \<open>The text after \<open>Content preview: \<close>.\<close>

definition preview :: "jsval \<Rightarrow> exn + jstring" where
  "preview content =
     (case slice100 content of
        Inl e \<Rightarrow> Inl e
      | Inr head \<Rightarrow> Inr (toStr head @ (if longerThan100 content then lit ''...'' else [])))"

text \<open>The \<open>execute\<close> of the \<open>writeFile\<close> entry of \<open>tools\<close>.\<close>

definition writeFileTool :: "env \<Rightarrow> jsval \<Rightarrow> payload io" where
  "writeFileTool ev args =
     bindIO (liftE (getField args (lit ''path''))) (\<lambda>p.
     bindIO (console_log [S (newline @ lit ''I want to write to file: '' @ toStr p)]) (\<lambda>_.
     bindIO (liftE (getField args (lit ''content''))) (\<lambda>content.
     bindIO (liftE (preview content)) (\<lambda>shown.
     bindIO (console_log [S (lit ''Content preview: '' @ shown)]) (\<lambda>_.
     bindIO (question (lit ''Do you want to proceed? (yes/no): '')) (\<lambda>answer.
       if toLowerCase ev answer = lit ''yes'' \<or> toLowerCase ev answer = lit ''y''
       then writeFile ev args
       else returnIO (Cancelled (lit ''File write operation cancelled by user''))))))))"

text \<open>The \<open>execute\<close> of the \<open>executeCommand\<close> entry of \<open>tools\<close>.\<close>

definition executeCommandTool :: "env \<Rightarrow> jsval \<Rightarrow> payload io" where
  "executeCommandTool ev args =
     bindIO (liftE (getField args (lit ''command''))) (\<lambda>command.
     bindIO (console_log [S (newline @ lit ''I want to execute command: '' @ toStr command)]) (\<lambda>_.
     bindIO (question (lit ''Do you want to proceed? (yes/no): '')) (\<lambda>answer.
       if toLowerCase ev answer = lit ''yes'' \<or> toLowerCase ev answer = lit ''y''
       then executeCommand ev args
       else returnIO (Cancelled (lit ''Command execution cancelled by user'')))))"

text \<open>\<open>tools\<close>, each name with its \<open>execute\<close> (the description and the schema are never read).\<close>

definition tools :: "env \<Rightarrow> (jstring \<times> (jsval \<Rightarrow> payload io)) list" where
  "tools ev =
     [(lit ''readFile'', readFile ev),
      (lit ''writeFile'', writeFileTool ev),
      (lit ''listFiles'', listFiles ev),
      (lit ''executeCommand'', executeCommandTool ev)]"

definition executeTool :: "env \<Rightarrow> jstring \<Rightarrow> jsval \<Rightarrow> payload io" where
  "executeTool ev toolName args =
     (case map_of (tools ev) toolName of
        None \<Rightarrow> returnIO (Failure (lit ''Tool '' @ toolName @ lit '' not found''))
      | Some execute \<Rightarrow>
          catchIO (execute args)
            (\<lambda>error. returnIO (Failure (lit ''Failed to execute tool '' @ toolName @ lit '': '' @ message error))))"

subsection \<open>The chat loop\<close>

text \<open>\<open>model.generateContentStream({contents: chatHistory, ...})\<close>.\<close>

definition model_generateContentStream :: "env \<Rightarrow> (chunk list \<times> exn option) io" where
  "model_generateContentStream ev =
     (\<lambda>s. case generateContentStream ev (chatHistory s) of
            Inl e \<Rightarrow> (Throw e, s\<lparr>requests := requests s @ [chatHistory s]\<rparr>)
          | Inr r \<Rightarrow> (Ok r, s\<lparr>requests := requests s @ [chatHistory s]\<rparr>))"

text \<open>One round of the \<open>for await\<close> loop, on the variables \<open>aiResponse\<close> and \<open>toolCalls\<close>.\<close>

definition retain :: "toolCall list \<Rightarrow> chunk \<Rightarrow> toolCall list" where
  "retain toolCalls ch =
     (case functionCalls ch of
        None \<Rightarrow> toolCalls
      | Some chunkFunctionCalls \<Rightarrow>
          if length chunkFunctionCalls > 0 then chunkFunctionCalls else toolCalls)"

fun consumeStream :: "chunk list \<Rightarrow> jstring \<Rightarrow> toolCall list \<Rightarrow> (jstring \<times> toolCall list) io" where
  "consumeStream [] aiResponse toolCalls = returnIO (aiResponse, toolCalls)"
| "consumeStream (ch # rest) aiResponse toolCalls =
     (if chunkText ch \<noteq> []
      then bindIO (stdout_write (chunkText ch)) (\<lambda>_.
             consumeStream rest (aiResponse @ chunkText ch) (retain toolCalls ch))
      else consumeStream rest aiResponse (retain toolCalls ch))"

text \<open>
  \<open>JSON.parse(toolCall.args)\<close>. \<open>JSON.parse\<close> takes a text; given the object \<open>args\<close> it
  converts it to a string first, which for an object is \<open>[object Object]\<close> (as in \<open>toStr\<close>),
  and that is not JSON text: whatever the members of the object are, the result is a
  \<open>SyntaxError\<close>, here with the message of Node 16, the version that the README names.
\<close>

definition JSON_parse :: "(jstring \<times> jsval) list \<Rightarrow> exn + jsval" where
  "JSON_parse args = Inl (Error (lit ''Unexpected token o in JSON at position 1''))"

text \<open>The loop \<open>for (const toolCall of toolCalls)\<close>.\<close>

fun dispatchCalls :: "env \<Rightarrow> toolCall list \<Rightarrow> unit io" where
  "dispatchCalls ev [] = returnIO ()"
| "dispatchCalls ev (toolCall # rest) =
     bindIO (liftE (JSON_parse (callArgs toolCall))) (\<lambda>args.
     bindIO (console_log [S (newline @ lit ''Executing tool: '' @ callName toolCall)]) (\<lambda>_.
     bindIO (executeTool ev (callName toolCall) args) (\<lambda>result.
     bindIO (console_log [S (lit ''Tool result:''), Pretty result]) (\<lambda>_.
     bindIO (pushHistory (Turn (lit ''function'') (stringify result))) (\<lambda>_.
     dispatchCalls ev rest)))))"

text \<open>
  The \<open>try\<close> block of \<open>processUserInput\<close> after the request: the stream is consumed, the
  response becomes a \<open>model\<close> turn, the retained calls are dispatched.
\<close>

definition respond :: "env \<Rightarrow> chunk list \<times> exn option \<Rightarrow> bool io" where
  "respond ev result =
     (case result of
        (chunks, failure) \<Rightarrow>
          bindIO (console_log [S (newline @ lit ''Assistant: '')]) (\<lambda>_.
          bindIO (consumeStream chunks [] []) (\<lambda>(aiResponse, toolCalls).
          bindIO (case failure of None \<Rightarrow> returnIO () | Some e \<Rightarrow> throwIO e) (\<lambda>_.
          bindIO (console_log [S newline]) (\<lambda>_.
          bindIO (pushHistory (Turn (lit ''model'') aiResponse)) (\<lambda>_.
          bindIO (if length toolCalls > 0
                  then bindIO (console_log [S (newline @ lit ''Executing tool calls...'')]) (\<lambda>_.
                       dispatchCalls ev toolCalls)
                  else returnIO ()) (\<lambda>_.
          returnIO True)))))))"

definition processUserInput :: "env \<Rightarrow> jstring \<Rightarrow> bool io" where
  "processUserInput ev userInput =
     (if toLowerCase ev userInput = lit ''exit''
      then bindIO (console_log [S (lit ''Goodbye!'')]) (\<lambda>_.
           bindIO rl_close (\<lambda>_.
           returnIO False))
      else
        bindIO (pushHistory (Turn (lit ''user'') userInput)) (\<lambda>_.
        catchIO
          (bindIO (model_generateContentStream ev) (respond ev))
          (\<lambda>error. bindIO (console_error [S (lit ''Error:''), E error]) (\<lambda>_. returnIO True))))"

text \<open>
  \<open>askQuestion\<close>: a line is read and processed, and \<open>askQuestion\<close> runs again when
  \<open>processUserInput\<close> resolved with \<open>true\<close>. It gives the state in which the process is left.
\<close>

function askQuestion :: "env \<Rightarrow> state \<Rightarrow> state" where
  "askQuestion ev s =
     (case question (newline @ lit ''You: '') s of
        (r, s1) \<Rightarrow>
          (case r of
             Ok userInput \<Rightarrow>
               (case processUserInput ev userInput s1 of
                  (shouldContinue, s2) \<Rightarrow>
                    if shouldContinue = Ok True then askQuestion ev s2 else s2)
           | Throw e \<Rightarrow> s1
           | Pending \<Rightarrow> s1))"
  by pat_completeness auto

text \<open>\<open>startChat(initialMessage)\<close>; an absent message is the empty string, which \<open>if (initialMessage)\<close> skips as well.\<close>

definition startChat :: "env \<Rightarrow> jstring \<Rightarrow> state \<Rightarrow> state" where
  "startChat ev initialMessage s =
     (let s1 = snd (console_log
                 [S (lit ''Coding Assistant initialized. Type '' @ [0x22] @ lit ''exit'' @ [0x22] @ lit '' to quit.'')] s);
          s2 = s1\<lparr>chatHistory := [Turn (lit ''system'') systemPrompt]\<rparr>
      in if initialMessage \<noteq> []
         then (case bindIO (console_log [S (newline @ lit ''You: '' @ initialMessage)])
                      (\<lambda>_. processUserInput ev initialMessage) s2 of
                 (shouldContinue, s3) \<Rightarrow>
                   if shouldContinue = Ok True then askQuestion ev s3 else s3)
         else askQuestion ev s2)"

text \<open>
  How the process ends: \<open>process.exit(code)\<close>, or nothing is left to run (the exit code is
  then 0).
\<close>

datatype ending = ProcessExit nat | Finished

text \<open>
  The top level of \<open>index.ts\<close> from \<open>const args = process.argv.slice(2)\<close> on: the direct file
  creation, or the chat.
\<close>

definition cli :: "env \<Rightarrow> jstring list \<Rightarrow> state \<Rightarrow> ending \<times> state" where
  "cli ev argv s =
     (let initialMessage = join (lit '' '') argv
      in if startsWith initialMessage (lit ''create '') \<and> includes_str initialMessage (lit ''.txt'')
         then
           let filename = trim (replace_first initialMessage (lit ''create '') []);
               writeArgs = JObj [(lit ''path'', JStr filename), (lit ''content'', JStr [])]
           in (case bindIO (console_log [S (lit ''Creating file: '' @ filename)])
                      (\<lambda>_. writeFile ev writeArgs) s of
                 (Ok result, s') \<Rightarrow>
                   (ProcessExit 0, snd (console_log [S (lit ''File creation result:''), Pretty result] s'))
               | (Throw error, s') \<Rightarrow>
                   (ProcessExit 1, snd (console_error [S (lit ''Error creating file:''), E error] s'))
               | (Pending, s') \<Rightarrow> (Finished, s'))
         else (Finished, startChat ev initialMessage s))"

text \<open>
  The whole top level, from the value of \<open>process.env.GOOGLE_API_KEY\<close> and
  \<open>process.argv.slice(2)\<close>: without the key the process exits at once.
\<close>

definition main :: "env \<Rightarrow> jstring option \<Rightarrow> jstring list \<Rightarrow> state \<Rightarrow> ending \<times> state" where
  "main ev apiKey argv s =
     (if apiKey = None \<or> apiKey = Some []
      then (ProcessExit 1, snd (console_error [S (lit ''Missing GOOGLE_API_KEY in .env file'')] s))
      else cli ev argv s)"

text \<open>The state in which the process starts, on a file system and the lines the user will type.\<close>

definition initial :: "node \<Rightarrow> jstring list \<Rightarrow> state" where
  "initial root input =
     \<lparr>chatHistory = [], rlClosed = False, console = [], stdin = input, disk = root,
      calls = [], requests = []\<rparr>"


section \<open>Sample inputs\<close>

text \<open>
  The inputs of the examples below: the working directory \<open>/home\<close>, a shell that prints
  nothing and changes nothing, a model that answers with an empty stream. No example puts a
  string with a code unit above 255 in lower case.
\<close>

definition sample_env :: env where
  "sample_env =
     \<lparr>cwd = [lit ''home''],
      execSync = (\<lambda>command root. (Inr [], root)),
      generateContentStream = (\<lambda>contents. Inr ([], None)),
      toLowerCase_Unicode = (\<lambda>s. s)\<rparr>"

text \<open>A model whose stream carries a text and then a batch of two function calls.\<close>

definition sample_calling_env :: env where
  "sample_calling_env =
     sample_env\<lparr>generateContentStream :=
       (\<lambda>contents. Inr ([Chunk (lit ''Reading.'') None,
                          Chunk [] (Some [ToolCall (lit ''readFile'') [(lit ''path'', JStr (lit ''notes.txt''))],
                                          ToolCall (lit ''listFiles'') [(lit ''directory'', JStr (lit ''.''))]])],
                         None))\<rparr>"

section \<open>What an effect leaves alone\<close>

text \<open>
  \<open>frame R m\<close>: the state after \<open>m\<close> is related by \<open>R\<close> to the state before it, however \<open>m\<close>
  ends. With a reflexive and transitive \<open>R\<close> this passes through sequencing and \<open>try\<close>/\<open>catch\<close>;
  it is how the theorems below know which parts of the state a computation cannot touch.
\<close>

definition frame :: "(state \<Rightarrow> state \<Rightarrow> bool) \<Rightarrow> 'a io \<Rightarrow> bool" where
  "frame R m = (\<forall>s. R s (snd (m s)))"

definition stable :: "(state \<Rightarrow> state \<Rightarrow> bool) \<Rightarrow> bool" where
  "stable R = ((\<forall>s. R s s) \<and> (\<forall>s t u. R s t \<longrightarrow> R t u \<longrightarrow> R s u))"

section \<open>Literals\<close>

lemma lit_simps: "lit [] = []" "lit (c # cs) = of_char c # lit cs" "lit (a @ b) = lit a @ lit b"
  by (simp_all add: lit_def)

lemma length_lit [simp]: "length (lit s) = length s"
  by (simp add: lit_def)

lemma lit_fold: "lit a @ lit b = lit (a @ b)" "lit a @ lit b @ c = lit (a @ b) @ c"
  by (simp_all add: lit_def)

lemma of_char_int_range: "0 \<le> (of_char c :: int)" "(of_char c :: int) < 256"
proof -
  have "(of_char c :: int) mod 256 = of_char c" by simp
  then show "0 \<le> (of_char c :: int)" "(of_char c :: int) < 256"
    by (metis pos_mod_sign zero_less_numeral, metis pos_mod_bound zero_less_numeral)
qed

lemma uint_of_char: "uint (of_char c :: unit16) = of_char c"
proof -
  have "(of_char c :: unit16) = word_of_int (of_char c)" by (simp add: of_int_of_char)
  then have "uint (of_char c :: unit16) = take_bit 16 (of_char c :: int)"
    by (simp only: uint_word_of_int_eq) simp
  also have "\<dots> = of_char c"
    using of_char_int_range [of c] by (simp add: take_bit_int_eq_self)
  finally show ?thesis .
qed

lemma of_char_unit16_eq_iff: "(of_char c :: unit16) = of_char d \<longleftrightarrow> c = d"
proof
  assume "(of_char c :: unit16) = of_char d"
  then have "uint (of_char c :: unit16) = uint (of_char d :: unit16)" by simp
  then have "(of_char c :: int) = of_char d" by (simp only: uint_of_char)
  then show "c = d" by simp
qed simp

lemma lit_eq_iff [simp]: "lit a = lit b \<longleftrightarrow> a = b"
proof (induction a arbitrary: b)
  case Nil
  show ?case by (cases b) (simp_all add: lit_def)
next
  case (Cons c cs)
  show ?case using Cons.IH by (cases b) (auto simp: lit_def of_char_unit16_eq_iff)
qed

section \<open>Encoding and decoding\<close>

lemma decode1: "0 \<le> b \<Longrightarrow> b < 0x80 \<Longrightarrow> utf8CodePoints (b # rest) = b # utf8CodePoints rest"
  by simp

lemma decode2:
  "within b 0xC2 0xDF \<Longrightarrow> within c 0x80 0xBF \<Longrightarrow>
   utf8CodePoints (b # c # rest) = ((b - 0xC0) * 0x40 + (c - 0x80)) # utf8CodePoints rest"
  by (simp add: within_def)

lemma decode3:
  "within b 0xE0 0xEF \<Longrightarrow>
   within c (if b = 0xE0 then 0xA0 else 0x80) (if b = 0xED then 0x9F else 0xBF) \<Longrightarrow>
   within d 0x80 0xBF \<Longrightarrow>
   utf8CodePoints (b # c # d # rest) =
     ((b - 0xE0) * 0x1000 + (c - 0x80) * 0x40 + (d - 0x80)) # utf8CodePoints rest"
  by (simp add: within_def)

lemma decode4:
  "within b 0xF0 0xF4 \<Longrightarrow>
   within c (if b = 0xF0 then 0x90 else 0x80) (if b = 0xF4 then 0x8F else 0xBF) \<Longrightarrow>
   within d 0x80 0xBF \<Longrightarrow> within e 0x80 0xBF \<Longrightarrow>
   utf8CodePoints (b # c # d # e # rest) =
     ((b - 0xF0) * 0x40000 + (c - 0x80) * 0x1000 + (d - 0x80) * 0x40 + (e - 0x80))
       # utf8CodePoints rest"
  by (simp add: within_def)

lemma digits64:
  fixes cp :: int
  obtains a b c d where "cp = a * 0x40000 + b * 0x1000 + c * 0x40 + d"
    and "0 \<le> b" "b < 0x40" "0 \<le> c" "c < 0x40" "0 \<le> d" "d < 0x40"
    and "cp mod 0x40 = d" and "cp div 0x40 mod 0x40 = c" and "cp div 0x1000 mod 0x40 = b"
    and "cp div 0x40 = a * 0x1000 + b * 0x40 + c" and "cp div 0x1000 = a * 0x40 + b"
    and "cp div 0x40000 = a"
proof -
  define q1 where "q1 = cp div 0x40"
  define q2 where "q2 = q1 div 0x40"
  define a where "a = q2 div 0x40"
  define b where "b = q2 mod 0x40"
  define c where "c = q1 mod 0x40"
  define d where "d = cp mod 0x40"
  have 1: "cp = q1 * 0x40 + d" by (simp add: q1_def d_def)
  have 2: "q1 = q2 * 0x40 + c" by (simp add: q2_def c_def)
  have 3: "q2 = a * 0x40 + b" by (simp add: a_def b_def)
  have k2: "cp div 0x1000 = q2"
    unfolding q2_def q1_def by (simp add: zdiv_zmult2_eq [symmetric])
  have k3: "cp div 0x40000 = a"
    unfolding a_def q2_def q1_def by (simp add: zdiv_zmult2_eq [symmetric])
  show thesis
  proof (rule that [of a b c d])
    show "cp = a * 0x40000 + b * 0x1000 + c * 0x40 + d" using 1 2 3 by simp
    show "0 \<le> b" "b < 0x40" "0 \<le> c" "c < 0x40" "0 \<le> d" "d < 0x40"
      by (simp_all add: b_def c_def d_def)
    show "cp mod 0x40 = d" by (simp add: d_def)
    show "cp div 0x40 mod 0x40 = c" by (simp add: c_def q1_def)
    show "cp div 0x1000 mod 0x40 = b" by (simp add: k2 b_def)
    show "cp div 0x40 = a * 0x1000 + b * 0x40 + c" using 2 3 by (simp add: q1_def)
    show "cp div 0x1000 = a * 0x40 + b" using 3 k2 by simp
    show "cp div 0x40000 = a" by (rule k3)
  qed
qed

lemma utf8CodePoints_utf8Bytes:
  assumes "scalar cp"
  shows "utf8CodePoints (utf8Bytes cp @ rest) = cp # utf8CodePoints rest"
proof -
  from assms have nn: "0 \<le> cp" and lt: "cp < 0x110000" and ns: "cp < 0xD800 \<or> 0xDFFF < cp"
    by (auto simp: scalar_def)
  obtain a b c d where cp: "cp = a * 0x40000 + b * 0x1000 + c * 0x40 + d"
    and bd: "0 \<le> b" "b < 0x40" "0 \<le> c" "c < 0x40" "0 \<le> d" "d < 0x40"
    and m: "cp mod 0x40 = d" "cp div 0x40 mod 0x40 = c" "cp div 0x1000 mod 0x40 = b"
    and q1: "cp div 0x40 = a * 0x1000 + b * 0x40 + c" and q2: "cp div 0x1000 = a * 0x40 + b"
    and q3: "cp div 0x40000 = a"
    by (rule digits64)
  consider "cp < 0x80" | "0x80 \<le> cp" "cp < 0x800" | "0x800 \<le> cp" "cp < 0x10000"
    | "0x10000 \<le> cp" by linarith
  then show ?thesis
  proof cases
    case 1
    with nn show ?thesis by (simp add: utf8Bytes_def)
  next
    case 2
    have u: "utf8Bytes cp = [0xC0 + (a * 0x1000 + b * 0x40 + c), 0x80 + d]"
      using 2 by (simp add: utf8Bytes_def m(1) q1)
    have x: "within (0xC0 + (a * 0x1000 + b * 0x40 + c)) 0xC2 0xDF"
      using 2 cp bd unfolding within_def by linarith
    have y: "within (0x80 + d) 0x80 0xBF" using bd unfolding within_def by linarith
    have v: "(0xC0 + (a * 0x1000 + b * 0x40 + c) - 0xC0) * 0x40 + (0x80 + d - 0x80) = cp"
      using cp by simp
    show ?thesis unfolding u using decode2 [OF x y, of rest] v by simp
  next
    case 3
    have u: "utf8Bytes cp = [0xE0 + (a * 0x40 + b), 0x80 + c, 0x80 + d]"
      using 3 by (simp add: utf8Bytes_def m(1,2) q2)
    have x: "within (0xE0 + (a * 0x40 + b)) 0xE0 0xEF"
      using 3 cp bd unfolding within_def by linarith
    have y: "within (0x80 + c) (if 0xE0 + (a * 0x40 + b) = 0xE0 then 0xA0 else 0x80)
                                (if 0xE0 + (a * 0x40 + b) = 0xED then 0x9F else 0xBF)"
      using 3 cp bd ns unfolding within_def by (auto; linarith)
    have z: "within (0x80 + d) 0x80 0xBF" using bd unfolding within_def by linarith
    have v: "(0xE0 + (a * 0x40 + b) - 0xE0) * 0x1000 + (0x80 + c - 0x80) * 0x40 + (0x80 + d - 0x80) = cp"
      using cp by simp
    show ?thesis unfolding u using decode3 [OF x y z, of rest] v by simp
  next
    case 4
    have u: "utf8Bytes cp = [0xF0 + a, 0x80 + b, 0x80 + c, 0x80 + d]"
      using 4 by (simp add: utf8Bytes_def m q3)
    have x: "within (0xF0 + a) 0xF0 0xF4"
      using 4 lt cp bd unfolding within_def by linarith
    have y: "within (0x80 + b) (if 0xF0 + a = 0xF0 then 0x90 else 0x80)
                                (if 0xF0 + a = 0xF4 then 0x8F else 0xBF)"
      using 4 lt cp bd unfolding within_def by (auto; linarith)
    have z: "within (0x80 + c) 0x80 0xBF" using bd unfolding within_def by linarith
    have w: "within (0x80 + d) 0x80 0xBF" using bd unfolding within_def by linarith
    have v: "(0xF0 + a - 0xF0) * 0x40000 + (0x80 + b - 0x80) * 0x1000 + (0x80 + c - 0x80) * 0x40
               + (0x80 + d - 0x80) = cp"
      using cp by simp
    show ?thesis unfolding u using decode4 [OF x y z w, of rest] v by simp
  qed
qed

lemma utf8Bytes_range:
  assumes "scalar cp"
  shows "list_all (\<lambda>b. 0 \<le> b \<and> b < 0x100) (utf8Bytes cp)"
proof -
  from assms have nn: "0 \<le> cp" and lt: "cp < 0x110000" by (auto simp: scalar_def)
  obtain a b c d where cp: "cp = a * 0x40000 + b * 0x1000 + c * 0x40 + d"
    and bd: "0 \<le> b" "b < 0x40" "0 \<le> c" "c < 0x40" "0 \<le> d" "d < 0x40"
    and m: "cp mod 0x40 = d" "cp div 0x40 mod 0x40 = c" "cp div 0x1000 mod 0x40 = b"
    and q1: "cp div 0x40 = a * 0x1000 + b * 0x40 + c" and q2: "cp div 0x1000 = a * 0x40 + b"
    and q3: "cp div 0x40000 = a"
    by (rule digits64)
  consider "cp < 0x80" | "0x80 \<le> cp" "cp < 0x800" | "0x800 \<le> cp" "cp < 0x10000"
    | "0x10000 \<le> cp" by linarith
  then show ?thesis
  proof cases
    case 1
    with nn show ?thesis by (simp add: utf8Bytes_def)
  next
    case 2
    have "utf8Bytes cp = [0xC0 + (a * 0x1000 + b * 0x40 + c), 0x80 + d]"
      using 2 by (simp add: utf8Bytes_def m(1) q1)
    moreover have "0 \<le> a * 0x1000 + b * 0x40 + c" "a * 0x1000 + b * 0x40 + c < 0x20"
      using 2 cp bd by linarith+
    ultimately show ?thesis using bd by simp
  next
    case 3
    have "utf8Bytes cp = [0xE0 + (a * 0x40 + b), 0x80 + c, 0x80 + d]"
      using 3 by (simp add: utf8Bytes_def m(1,2) q2)
    moreover have "0 \<le> a * 0x40 + b" "a * 0x40 + b < 0x10"
      using 3 cp bd by linarith+
    ultimately show ?thesis using bd by simp
  next
    case 4
    have "utf8Bytes cp = [0xF0 + a, 0x80 + b, 0x80 + c, 0x80 + d]"
      using 4 by (simp add: utf8Bytes_def m q3)
    moreover have "0 \<le> a" "a < 5" using 4 lt cp bd by linarith+
    ultimately show ?thesis using bd by simp
  qed
qed


lemma utf8CodePoints_concat:
  "list_all scalar cps \<Longrightarrow> utf8CodePoints (concat (map utf8Bytes cps)) = cps"
  by (induction cps) (simp_all add: utf8CodePoints_utf8Bytes)

lemma utf8Bytes_concat_range:
  "list_all scalar cps \<Longrightarrow> list_all (\<lambda>b. 0 \<le> b \<and> b < 0x100) (concat (map utf8Bytes cps))"
  by (induction cps) (simp_all add: utf8Bytes_range)

lemma of_char_char_of:
  fixes bs :: "int list"
  shows "list_all (\<lambda>b. 0 \<le> b \<and> b < 0x100) bs \<Longrightarrow> map (of_char \<circ> (char_of :: int \<Rightarrow> char)) bs = bs"
  by (induction bs) simp_all

lemma surrogate_uint:
  "isHighSurrogate u \<longleftrightarrow> 0xD800 \<le> uint u \<and> uint u \<le> 0xDBFF"
  "isLowSurrogate u \<longleftrightarrow> 0xDC00 \<le> uint u \<and> uint u \<le> 0xDFFF"
  by (simp_all add: isHighSurrogate_def isLowSurrogate_def word_le_def)

lemma uint_unit16: "0 \<le> uint (u :: unit16)" "uint (u :: unit16) < 0x10000"
  using uint_bounded [of u] by simp_all

lemma codePoints_scalar: "list_all scalar (codePoints s)"
proof (induction s rule: codePoints.induct)
  case 1
  show ?case by simp
next
  case (2 u)
  show ?case using uint_unit16 [of u] by (auto simp: scalar_def surrogate_uint)
next
  case (3 u v us)
  then show ?case
    using uint_unit16 [of u] uint_unit16 [of v]
    by (auto simp: scalar_def surrogate_uint pairCodePoint_def)
qed

lemma utf16Units_pair:
  assumes "isHighSurrogate u" and "isLowSurrogate v"
  shows "utf16Units (pairCodePoint u v) = [u, v]"
proof -
  define h where "h = uint u - 0xD800"
  define l where "l = uint v - 0xDC00"
  have hb: "0 \<le> h" and lb: "0 \<le> l" "l < 0x400"
    using assms by (simp_all add: h_def l_def surrogate_uint)
  have d: "(h * 0x400 + l) div 0x400 = h" using lb by simp
  have m: "(h * 0x400 + l) mod 0x400 = l" using lb by simp
  have "utf16Units (0x10000 + h * 0x400 + l) = [of_int (0xD800 + h), of_int (0xDC00 + l)]"
    using hb lb d m by (simp add: utf16Units_def add.assoc)
  also have "\<dots> = [u, v]" by (simp add: h_def l_def)
  finally show ?thesis by (simp add: h_def l_def pairCodePoint_def)
qed

lemma utf16Units_unit: "utf16Units (uint (u :: unit16)) = [u]"
  using uint_unit16 [of u] by (simp add: utf16Units_def)

lemma utf16Units_replacement: "utf16Units 0xFFFD = [0xFFFD]"
  by (simp add: utf16Units_def)

lemma utf16Units_codePoints: "concat (map utf16Units (codePoints s)) = toWellFormed s"
proof (induction s rule: codePoints.induct)
  case 1
  show ?case by simp
next
  case (2 u)
  show ?case by (simp add: utf16Units_unit utf16Units_replacement)
next
  case (3 u v us)
  show ?case
  proof (cases "isHighSurrogate u \<and> isLowSurrogate v")
    case True
    with 3 show ?thesis by (simp add: utf16Units_pair)
  next
    case False
    with 3 show ?thesis by (auto simp: utf16Units_unit utf16Units_replacement)
  qed
qed

lemma decodeUtf8_encodeUtf8: "decodeUtf8 (encodeUtf8 s) = toWellFormed s"
  by (simp add: decodeUtf8_def encodeUtf8_def of_char_char_of utf8Bytes_concat_range
      utf8CodePoints_concat codePoints_scalar utf16Units_codePoints)

lemma toWellFormed_isWellFormed: "isWellFormed s \<Longrightarrow> toWellFormed s = s"
  by (induction s rule: toWellFormed.induct) (auto split: if_splits)


section \<open>Sequencing and handlers keep what every step keeps\<close>

lemma frameD: "frame R m \<Longrightarrow> m s = (r, t) \<Longrightarrow> R s t"
  by (auto simp: frame_def dest: spec[of _ s])

lemma frame_returnIO: "stable R \<Longrightarrow> frame R (returnIO x)"
  by (simp add: frame_def stable_def returnIO_def)

lemma frame_throwIO: "stable R \<Longrightarrow> frame R (throwIO e)"
  by (simp add: frame_def stable_def throwIO_def)

lemma frame_liftE: "stable R \<Longrightarrow> frame R (liftE r)"
  by (cases r) (simp_all add: liftE_def frame_returnIO frame_throwIO)

lemma frame_bindIO:
  assumes "stable R" and "frame R m" and "\<And>x. frame R (f x)"
  shows "frame R (bindIO m f)"
  unfolding frame_def
proof
  fix s
  obtain r t where ms: "m s = (r, t)" by (cases "m s")
  have st: "R s t" using assms(2) ms by (rule frameD)
  show "R s (snd (bindIO m f s))"
  proof (cases r)
    case (Ok x)
    obtain r' u where fx: "f x t = (r', u)" by (cases "f x t")
    have "R t u" using assms(3) fx by (rule frameD)
    with st assms(1) have "R s u" unfolding stable_def by blast
    with Ok ms fx show ?thesis by (simp add: bindIO_def)
  qed (use st ms in \<open>simp_all add: bindIO_def\<close>)
qed

lemma frame_catchIO:
  assumes "stable R" and "frame R m" and "\<And>e. frame R (h e)"
  shows "frame R (catchIO m h)"
  unfolding frame_def
proof
  fix s
  obtain r t where ms: "m s = (r, t)" by (cases "m s")
  have st: "R s t" using assms(2) ms by (rule frameD)
  show "R s (snd (catchIO m h s))"
  proof (cases r)
    case (Throw e)
    obtain r' u where he: "h e t = (r', u)" by (cases "h e t")
    have "R t u" using assms(3) he by (rule frameD)
    with st assms(1) have "R s u" unfolding stable_def by blast
    with Throw ms he show ?thesis by (simp add: catchIO_def)
  qed (use st ms in \<open>simp_all add: catchIO_def\<close>)
qed

lemma frame_if: "frame R a \<Longrightarrow> frame R b \<Longrightarrow> frame R (if c then a else b)"
  by simp

lemma frame_console_log: "(\<And>s x. R s (s\<lparr>console := x\<rparr>)) \<Longrightarrow> frame R (console_log xs)"
  by (simp add: frame_def console_log_def)

lemma frame_console_error: "(\<And>s x. R s (s\<lparr>console := x\<rparr>)) \<Longrightarrow> frame R (console_error xs)"
  by (simp add: frame_def console_error_def)

lemma frame_stdout_write: "(\<And>s x. R s (s\<lparr>console := x\<rparr>)) \<Longrightarrow> frame R (stdout_write xs)"
  by (simp add: frame_def stdout_write_def)

lemma frame_enter: "(\<And>s x. R s (s\<lparr>calls := x\<rparr>)) \<Longrightarrow> frame R (enter c)"
  by (simp add: frame_def enter_def)

lemma frame_pushHistory: "(\<And>s x. R s (s\<lparr>chatHistory := x\<rparr>)) \<Longrightarrow> frame R (pushHistory c)"
  by (simp add: frame_def pushHistory_def)

lemma frame_rl_close: "(\<And>s x. R s (s\<lparr>rlClosed := x\<rparr>)) \<Longrightarrow> frame R rl_close"
  by (simp add: frame_def rl_close_def)

lemma frame_resolve: "stable R \<Longrightarrow> frame R (resolve ev v)"
  by (cases v) (simp_all add: resolve_def frame_returnIO frame_throwIO)

lemma frame_fs_readFile: "stable R \<Longrightarrow> frame R (fs_readFile p)"
  by (auto simp: frame_def stable_def fs_readFile_def split: sum.splits node.splits if_splits)

lemma frame_fs_readdir: "stable R \<Longrightarrow> frame R (fs_readdir p)"
  by (auto simp: frame_def stable_def fs_readdir_def split: sum.splits node.splits if_splits)

lemma frame_fs_ensureDir: "stable R \<Longrightarrow> (\<And>s x. R s (s\<lparr>disk := x\<rparr>)) \<Longrightarrow> frame R (fs_ensureDir p)"
  by (auto simp: frame_def stable_def fs_ensureDir_def split: sum.splits if_splits)

lemma frame_fs_writeFile: "stable R \<Longrightarrow> (\<And>s x. R s (s\<lparr>disk := x\<rparr>)) \<Longrightarrow> frame R (fs_writeFile p v)"
  by (cases v) (auto simp: frame_def stable_def fs_writeFile_def throwIO_def split: sum.splits if_splits)

lemma frame_execSync: "stable R \<Longrightarrow> (\<And>s x. R s (s\<lparr>disk := x\<rparr>)) \<Longrightarrow> frame R (child_process_execSync ev v)"
  by (cases v) (auto simp: frame_def stable_def child_process_execSync_def throwIO_def split: sum.splits prod.splits)

lemma frame_executors:
  assumes "stable R" and "\<And>s x. R s (s\<lparr>disk := x\<rparr>)" and "\<And>s x. R s (s\<lparr>calls := x\<rparr>)"
  shows "frame R (readFile ev args)" and "frame R (writeFile ev args)"
    and "frame R (listFiles ev args)" and "frame R (executeCommand ev args)"
  unfolding readFile_def writeFile_def listFiles_def executeCommand_def
    readFile_try_def writeFile_try_def listFiles_try_def executeCommand_try_def
  by (intro frame_bindIO frame_catchIO frame_returnIO frame_liftE frame_resolve frame_enter
        frame_fs_readFile frame_fs_readdir frame_fs_ensureDir frame_fs_writeFile frame_execSync assms)+


lemma frame_question: "(\<And>s x y. R s (s\<lparr>console := x\<rparr>)) \<Longrightarrow> (\<And>s x a rest. stdin s = a # rest \<Longrightarrow> R s (s\<lparr>console := x, stdin := rest\<rparr>)) \<Longrightarrow> frame R (question q)"
  by (auto simp: frame_def question_def split: list.splits)

lemma frame_generate: "(\<And>s x. R s (s\<lparr>requests := x\<rparr>)) \<Longrightarrow> frame R (model_generateContentStream ev)"
  by (auto simp: frame_def model_generateContentStream_def split: sum.splits)

lemma frame_consumeStream:
  assumes "stable R" and "\<And>s x. R s (s\<lparr>console := x\<rparr>)"
  shows "frame R (consumeStream chunks a t)"
proof (induction chunks arbitrary: a t)
  case Nil
  show ?case by (simp add: frame_returnIO assms)
next
  case (Cons ch chunks)
  show ?case
    by (simp add: Cons.IH frame_bindIO frame_stdout_write assms)
qed

lemma frame_tools:
  assumes "stable R" and "\<And>s x. R s (s\<lparr>disk := x\<rparr>)" and "\<And>s x. R s (s\<lparr>calls := x\<rparr>)"
    and "\<And>s x. R s (s\<lparr>console := x\<rparr>)" and "frame R (question (lit ''Do you want to proceed? (yes/no): ''))"
  shows "frame R (writeFileTool ev args)" and "frame R (executeCommandTool ev args)"
  unfolding writeFileTool_def executeCommandTool_def
  by (intro frame_bindIO frame_liftE frame_console_log frame_if frame_returnIO frame_executors assms)+

lemma frame_executeTool:
  assumes "stable R" and "\<And>s x. R s (s\<lparr>disk := x\<rparr>)" and "\<And>s x. R s (s\<lparr>calls := x\<rparr>)"
    and "\<And>s x. R s (s\<lparr>console := x\<rparr>)" and "frame R (question (lit ''Do you want to proceed? (yes/no): ''))"
  shows "frame R (executeTool ev toolName args)"
proof (cases "map_of (tools ev) toolName")
  case None
  then show ?thesis by (simp add: executeTool_def frame_returnIO assms)
next
  case (Some execute)
  then have "frame R (execute args)"
    by (auto simp: tools_def frame_executors frame_tools assms split: if_splits)
  with Some show ?thesis
    by (simp add: executeTool_def frame_catchIO frame_returnIO assms)
qed

lemma frame_dispatchCalls:
  assumes "stable R" and "\<And>s x. R s (s\<lparr>disk := x\<rparr>)" and "\<And>s x. R s (s\<lparr>calls := x\<rparr>)"
    and "\<And>s x. R s (s\<lparr>console := x\<rparr>)" and "\<And>t. frame R (pushHistory t)"
    and "frame R (question (lit ''Do you want to proceed? (yes/no): ''))"
  shows "frame R (dispatchCalls ev tcs)"
proof (induction tcs)
  case Nil
  show ?case by (simp add: frame_returnIO assms)
next
  case (Cons tc tcs)
  show ?case
    unfolding dispatchCalls.simps
    by (intro frame_bindIO frame_liftE frame_console_log frame_executeTool Cons.IH assms)
qed

lemma frame_respond:
  assumes "stable R" and "\<And>s x. R s (s\<lparr>disk := x\<rparr>)" and "\<And>s x. R s (s\<lparr>calls := x\<rparr>)"
    and "\<And>s x. R s (s\<lparr>console := x\<rparr>)" and "\<And>t. frame R (pushHistory t)"
    and "frame R (question (lit ''Do you want to proceed? (yes/no): ''))"
  shows "frame R (respond ev result)"
proof (cases result)
  case (Pair chunks failure)
  show ?thesis
    unfolding respond_def Pair prod.case
    by (intro frame_bindIO frame_console_log frame_consumeStream assms)
      (auto intro!: frame_bindIO frame_console_log frame_returnIO frame_throwIO
        frame_dispatchCalls assms split: option.splits)
qed

lemma frame_processUserInput:
  assumes "stable R" and "\<And>s x. R s (s\<lparr>disk := x\<rparr>)" and "\<And>s x. R s (s\<lparr>calls := x\<rparr>)"
    and "\<And>s x. R s (s\<lparr>console := x\<rparr>)" and "\<And>t. frame R (pushHistory t)"
    and "\<And>s x. R s (s\<lparr>requests := x\<rparr>)" and "\<And>s x. R s (s\<lparr>rlClosed := x\<rparr>)"
    and "frame R (question (lit ''Do you want to proceed? (yes/no): ''))"
  shows "frame R (processUserInput ev userInput)"
  unfolding processUserInput_def
  by (intro frame_if frame_bindIO frame_catchIO frame_console_log frame_console_error frame_rl_close
      frame_returnIO frame_generate frame_respond assms)

lemma stable_stdin: "stable (\<lambda>s t. length (stdin t) \<le> length (stdin s))"
  by (auto simp: stable_def)

lemma stdin_question: "frame (\<lambda>s t. length (stdin t) \<le> length (stdin s)) (question q)"
  by (rule frame_question) simp_all

lemma stdin_processUserInput:
  "length (stdin (snd (processUserInput ev userInput s))) \<le> length (stdin s)"
proof -
  have "frame (\<lambda>s t. length (stdin t) \<le> length (stdin s)) (processUserInput ev userInput)"
    by (rule frame_processUserInput) (simp_all add: stable_stdin stdin_question frame_pushHistory)
  then show ?thesis by (simp add: frame_def)
qed

lemma question_Ok: "question q s = (Ok a, t) \<Longrightarrow> length (stdin t) < length (stdin s)"
  by (auto simp: question_def split: list.splits)

termination askQuestion
proof (relation "measure (\<lambda>(ev, s). length (stdin s))")
  show "wf (measure (\<lambda>(ev, s). length (stdin s)))" by simp
next
  fix ev :: env and s s1 s2 :: state and r :: "jstring outcome" and userInput :: jstring
    and shouldContinue :: "bool outcome"
  assume q: "(r, s1) = question (newline @ lit ''You: '') s" "r = Ok userInput"
    and p: "(shouldContinue, s2) = processUserInput ev userInput s1"
  from q have "question (newline @ lit ''You: '') s = (Ok userInput, s1)" by simp
  then have "length (stdin s1) < length (stdin s)" by (rule question_Ok)
  moreover have "length (stdin s2) \<le> length (stdin s1)"
    using stdin_processUserInput[of ev userInput s1] p by (metis snd_conv)
  ultimately show "((ev, s2), (ev, s)) \<in> measure (\<lambda>(ev, s). length (stdin s))" by simp
qed

section \<open>What the executors leave alone\<close>

lemma stable_eq: "stable (\<lambda>s t. f t = f s)"
  by (auto simp: stable_def)

lemma console_executors:
  "console (snd (writeFile ev args s)) = console s"
  "console (snd (executeCommand ev args s)) = console s"
  "console (snd (readFile ev args s)) = console s"
  "console (snd (listFiles ev args s)) = console s"
proof -
  have "frame (\<lambda>s t. console t = console s) (writeFile ev args)"
    "frame (\<lambda>s t. console t = console s) (executeCommand ev args)"
    "frame (\<lambda>s t. console t = console s) (readFile ev args)"
    "frame (\<lambda>s t. console t = console s) (listFiles ev args)"
    by (rule frame_executors; simp add: stable_eq)+
  then show "console (snd (writeFile ev args s)) = console s"
  "console (snd (executeCommand ev args s)) = console s"
  "console (snd (readFile ev args s)) = console s"
  "console (snd (listFiles ev args s)) = console s"
    by (simp_all add: frame_def)
qed

lemma calls_try:
  "calls (snd (writeFile_try ev args s)) = calls s"
  "calls (snd (executeCommand_try ev args s)) = calls s"
  "calls (snd (readFile_try ev args s)) = calls s"
  "calls (snd (listFiles_try ev args s)) = calls s"
proof -
  have "frame (\<lambda>s t. calls t = calls s) (writeFile_try ev args)"
    "frame (\<lambda>s t. calls t = calls s) (executeCommand_try ev args)"
    "frame (\<lambda>s t. calls t = calls s) (readFile_try ev args)"
    "frame (\<lambda>s t. calls t = calls s) (listFiles_try ev args)"
    unfolding readFile_try_def writeFile_try_def listFiles_try_def executeCommand_try_def
    by (intro frame_bindIO frame_returnIO frame_liftE frame_resolve frame_fs_readFile
        frame_fs_readdir frame_fs_ensureDir frame_fs_writeFile frame_execSync stable_eq; simp)+
  then show "calls (snd (writeFile_try ev args s)) = calls s"
  "calls (snd (executeCommand_try ev args s)) = calls s"
  "calls (snd (readFile_try ev args s)) = calls s"
  "calls (snd (listFiles_try ev args s)) = calls s"
    by (simp_all add: frame_def)
qed

lemma snd_catchIO_returnIO:
  "snd (catchIO m (\<lambda>e. returnIO (h e)) s) = snd (m s)"
  by (cases "m s"; cases "fst (m s)") (auto simp: catchIO_def returnIO_def)

lemma calls_executors:
  "calls (snd (writeFile ev args s)) = calls s @ [WriteFileCall args]"
  "calls (snd (executeCommand ev args s)) = calls s @ [ExecuteCommandCall args]"
  "calls (snd (readFile ev args s)) = calls s @ [ReadFileCall args]"
  "calls (snd (listFiles ev args s)) = calls s @ [ListFilesCall args]"
  by (simp_all add: writeFile_def executeCommand_def readFile_def listFiles_def bindIO_def
      enter_def snd_catchIO_returnIO calls_try)


section \<open>The confirmation gate\<close>




section \<open>The stream\<close>

text \<open>
  C4. When the stream has been consumed, the batch retained for dispatch is the last
  non-empty batch of function calls that a chunk carried (the batch held before, when no chunk
  carried one): a later chunk with an empty batch or with none does not clear it, and earlier
  batches are not accumulated. The response text is the concatenation of the chunks' texts.
\<close>

theorem stream_retains_last_batch:
  "fst (consumeStream chunks aiResponse toolCalls s) =
     Ok (aiResponse @ concat (map chunkText chunks),
         last (toolCalls # filter (\<lambda>batch. batch \<noteq> []) (List.map_filter functionCalls chunks)))"
proof (induction chunks arbitrary: aiResponse toolCalls s)
  case Nil
  show ?case by (simp add: returnIO_def List.map_filter_simps)
next
  case (Cons ch chunks)
  show ?case
    by (cases "functionCalls ch")
      (simp_all add: Cons.IH bindIO_def stdout_write_def retain_def List.map_filter_simps)
qed

section \<open>The preview\<close>

text \<open>
  C6. For a content string, the \<open>writeFile\<close> tool shows the target path, then the preview,
  then its prompt: a content longer than 100 characters is shown as its first 100 characters
  followed by \<open>...\<close>, a content of 100 characters or fewer is shown as it is.
\<close>

theorem preview_truncation:
  assumes "getField args (lit ''path'') = Inr p"
    and "getField args (lit ''content'') = Inr (JStr content)"
  shows "console (snd (writeFileTool ev args s)) =
           console s @
             [Log [S (newline @ lit ''I want to write to file: '' @ toStr p)],
              Log [S (lit ''Content preview: '' @
                      (if length content > 100 then take 100 content @ lit ''...'' else content))],
              Prompt (lit ''Do you want to proceed? (yes/no): '')]"
proof (cases "stdin s")
  case Nil
  with assms show ?thesis
    by (simp add: writeFileTool_def bindIO_def liftE_def returnIO_def console_log_def
        question_def preview_def)
next
  case (Cons answer rest)
  with assms show ?thesis
    by (simp add: writeFileTool_def bindIO_def liftE_def returnIO_def console_log_def
        question_def preview_def console_executors)
qed

theorem preview_truncation_witness:
  "getField (JObj [(lit ''path'', JStr (lit ''a.txt'')), (lit ''content'', JStr (replicate 101 0x78))]) (lit ''path'')
     = Inr (JStr (lit ''a.txt''))
   \<and> getField (JObj [(lit ''path'', JStr (lit ''a.txt'')), (lit ''content'', JStr (replicate 101 0x78))]) (lit ''content'')
     = Inr (JStr (replicate 101 0x78))
   \<and> console (snd (writeFileTool sample_env
                 (JObj [(lit ''path'', JStr (lit ''a.txt'')), (lit ''content'', JStr (replicate 101 0x78))])
                 (initial (Dir []) [])))
     = [Log [S (newline @ lit ''I want to write to file: a.txt'')],
        Log [S (lit ''Content preview: '' @ replicate 100 0x78 @ lit ''...'')],
        Prompt (lit ''Do you want to proceed? (yes/no): '')]"
proof -
  have h1: "getField (JObj [(lit ''path'', JStr (lit ''a.txt'')), (lit ''content'', JStr (replicate 101 0x78))]) (lit ''path'')
     = Inr (JStr (lit ''a.txt''))" by simp
  have h2: "getField (JObj [(lit ''path'', JStr (lit ''a.txt'')), (lit ''content'', JStr (replicate 101 0x78))]) (lit ''content'')
     = Inr (JStr (replicate 101 0x78))" by simp
  show ?thesis
    using preview_truncation [OF h1 h2, of sample_env "initial (Dir []) []"] h1 h2
    by (simp add: initial_def lit_fold)
qed


section \<open>The dispatcher\<close>

lemma catchIO_returnIO_cases:
  "catchIO m (\<lambda>e. returnIO (h e)) s =
     (case m s of
        (Ok x, t) \<Rightarrow> (Ok x, t)
      | (Throw e, t) \<Rightarrow> (Ok (h e), t)
      | (Pending, t) \<Rightarrow> (Pending, t))"
  by (auto simp: catchIO_def returnIO_def split: prod.splits outcome.splits)

lemma executeTool_never_throws: "fst (executeTool ev toolName args s) \<noteq> Throw e"
proof (cases "map_of (tools ev) toolName")
  case None
  then show ?thesis by (simp add: executeTool_def returnIO_def)
next
  case (Some execute)
  then show ?thesis
    by (auto simp: executeTool_def catchIO_returnIO_cases split: prod.splits outcome.splits)
qed

lemma dispatchCalls_parse_failure:
  "dispatchCalls ev (toolCall # rest) s =
     (Throw (Error (lit ''Unexpected token o in JSON at position 1'')), s)"
  by (simp add: bindIO_def liftE_def throwIO_def JSON_parse_def)

text \<open>
  C2, as amended. For every tool name and every argument value given to \<open>executeTool\<close>: a
  name that is not in the registry gives the error result \<open>Tool <name> not found\<close>, and the
  state is untouched; when the \<open>execute\<close> of the tool raises an exception (as the tools with a
  prompt do on an argument value whose fields cannot be read), the result is the error
  \<open>Failed to execute tool <name>: <message>\<close>; and \<open>executeTool\<close> never raises. The arguments
  of a call are decoded by \<open>JSON.parse\<close> in the dispatch loop, before \<open>executeTool\<close> is called:
  that fails, on the object that \<open>args\<close> is, and the exception leaves the loop as it is, with
  no result for the call.
\<close>

theorem executeTool_contains_failures:
  "(toolName \<notin> {lit ''readFile'', lit ''writeFile'', lit ''listFiles'', lit ''executeCommand''} \<longrightarrow>
      executeTool ev toolName args s = (Ok (Failure (lit ''Tool '' @ toolName @ lit '' not found'')), s))
   \<and> (\<forall>execute e t.
        map_of (tools ev) toolName = Some execute \<longrightarrow> execute args s = (Throw e, t) \<longrightarrow>
        executeTool ev toolName args s =
          (Ok (Failure (lit ''Failed to execute tool '' @ toolName @ lit '': '' @ message e)), t))
   \<and> (\<forall>e. fst (executeTool ev toolName args s) \<noteq> Throw e)
   \<and> (\<forall>toolCall rest.
        dispatchCalls ev (toolCall # rest) s =
          (Throw (Error (lit ''Unexpected token o in JSON at position 1'')), s))"
proof (intro conjI impI allI)
  assume "toolName \<notin> {lit ''readFile'', lit ''writeFile'', lit ''listFiles'', lit ''executeCommand''}"
  then have "map_of (tools ev) toolName = None" by (simp add: tools_def)
  then show "executeTool ev toolName args s = (Ok (Failure (lit ''Tool '' @ toolName @ lit '' not found'')), s)"
    by (simp add: executeTool_def returnIO_def)
next
  fix execute e t
  assume "map_of (tools ev) toolName = Some execute" and "execute args s = (Throw e, t)"
  then show "executeTool ev toolName args s =
          (Ok (Failure (lit ''Failed to execute tool '' @ toolName @ lit '': '' @ message e)), t)"
    by (simp add: executeTool_def catchIO_returnIO_cases)
next
  fix e
  show "fst (executeTool ev toolName args s) \<noteq> Throw e"
    by (rule executeTool_never_throws)
next
  fix toolCall rest
  show "dispatchCalls ev (toolCall # rest) s =
          (Throw (Error (lit ''Unexpected token o in JSON at position 1'')), s)"
    by (rule dispatchCalls_parse_failure)
qed

theorem executeTool_contains_failures_witness:
  "lit ''deleteFile'' \<notin> {lit ''readFile'', lit ''writeFile'', lit ''listFiles'', lit ''executeCommand''}
   \<and> executeTool sample_env (lit ''deleteFile'') JNull (initial (Dir []) [])
       = (Ok (Failure (lit ''Tool deleteFile not found'')), initial (Dir []) [])
   \<and> map_of (tools sample_env) (lit ''writeFile'') = Some (writeFileTool sample_env)
   \<and> writeFileTool sample_env JNull (initial (Dir []) [])
       = (Throw (Error (lit ''Cannot read properties of null (reading path)'')), initial (Dir []) [])
   \<and> executeTool sample_env (lit ''writeFile'') JNull (initial (Dir []) [])
       = (Ok (Failure (lit ''Failed to execute tool writeFile: Cannot read properties of null (reading path)'')),
          initial (Dir []) [])
   \<and> dispatchCalls sample_env [ToolCall (lit ''listFiles'') [(lit ''directory'', JStr (lit ''.''))]]
        (initial (Dir []) [])
       = (Throw (Error (lit ''Unexpected token o in JSON at position 1'')), initial (Dir []) [])"
proof -
  have h1: "lit ''deleteFile'' \<notin> {lit ''readFile'', lit ''writeFile'', lit ''listFiles'', lit ''executeCommand''}"
    by simp
  have h2: "map_of (tools sample_env) (lit ''writeFile'') = Some (writeFileTool sample_env)"
    by (simp add: tools_def)
  have h3: "writeFileTool sample_env JNull (initial (Dir []) [])
       = (Throw (Error (lit ''Cannot read properties of null (reading path)'')), initial (Dir []) [])"
    by (simp add: writeFileTool_def bindIO_def liftE_def throwIO_def lit_fold)
  note a = executeTool_contains_failures [of "lit ''deleteFile''" sample_env JNull "initial (Dir []) []",
      THEN conjunct1, rule_format, OF h1]
  note b = executeTool_contains_failures [of "lit ''writeFile''" sample_env JNull "initial (Dir []) []",
      THEN conjunct2, THEN conjunct1, rule_format, OF h2 h3]
  note c = executeTool_contains_failures [of "lit ''writeFile''" sample_env JNull "initial (Dir []) []",
      THEN conjunct2, THEN conjunct2, THEN conjunct2, rule_format]
  from a have a': "executeTool sample_env (lit ''deleteFile'') JNull (initial (Dir []) [])
       = (Ok (Failure (lit ''Tool deleteFile not found'')), initial (Dir []) [])"
    by (simp add: lit_fold)
  from b have b': "executeTool sample_env (lit ''writeFile'') JNull (initial (Dir []) [])
       = (Ok (Failure (lit ''Failed to execute tool writeFile: Cannot read properties of null (reading path)'')),
          initial (Dir []) [])"
    by (simp add: lit_fold)
  from h1 h2 h3 a' b' c [of "ToolCall (lit ''listFiles'') [(lit ''directory'', JStr (lit ''.''))]" "[]"]
  show ?thesis by blast
qed

text \<open>
  C2 as stated has a failure to decode the arguments converted to the error result
  \<open>Failed to execute tool <name>: <message>\<close>. Here the model called \<open>readFile\<close> with the
  arguments \<open>{path: 'notes.txt'}\<close>: decoding them fails, and dispatching the call ends with
  the \<open>SyntaxError\<close> itself, raised past the dispatch; there is no result, and nothing is
  appended to the conversation.
\<close>

theorem argument_decoding_failure_counterexample:
  "dispatchCalls sample_env [ToolCall (lit ''readFile'') [(lit ''path'', JStr (lit ''notes.txt''))]]
      (initial (Dir []) [])
     = (Throw (Error (lit ''Unexpected token o in JSON at position 1'')), initial (Dir []) [])
   \<and> fst (dispatchCalls sample_env [ToolCall (lit ''readFile'') [(lit ''path'', JStr (lit ''notes.txt''))]]
            (initial (Dir []) []))
     \<noteq> Ok ()
   \<and> chatHistory (snd (dispatchCalls sample_env
                          [ToolCall (lit ''readFile'') [(lit ''path'', JStr (lit ''notes.txt''))]]
                          (initial (Dir []) []))) = []"
  by (simp add: bindIO_def liftE_def throwIO_def JSON_parse_def initial_def)


section \<open>The executors\<close>

lemma readFile_try_cases:
  "(\<exists>c. readFile_try ev args s = (Ok (Content c), s)) \<or> (\<exists>e. readFile_try ev args s = (Throw e, s))"
  by (auto simp: readFile_try_def bindIO_def liftE_def returnIO_def throwIO_def resolve_def
      fs_readFile_def split: sum.splits jsval.splits node.splits if_splits)

lemma listFiles_try_cases:
  "(\<exists>c. listFiles_try ev args s = (Ok (Files c), s)) \<or> (\<exists>e. listFiles_try ev args s = (Throw e, s))"
  by (auto simp: listFiles_try_def bindIO_def liftE_def returnIO_def throwIO_def resolve_def
      fs_readdir_def split: sum.splits jsval.splits node.splits if_splits)

lemma executeCommand_try_cases:
  "(\<exists>c t. executeCommand_try ev args s = (Ok (Output c), t)) \<or> (\<exists>e t. executeCommand_try ev args s = (Throw e, t))"
  by (auto simp: executeCommand_try_def bindIO_def liftE_def returnIO_def throwIO_def
      child_process_execSync_def split: sum.splits jsval.splits prod.splits)

lemma writeFile_try_cases:
  "(\<exists>c t. writeFile_try ev args s = (Ok (Written c), t)) \<or> (\<exists>e t. writeFile_try ev args s = (Throw e, t))"
  by (auto simp: writeFile_try_def bindIO_def liftE_def returnIO_def throwIO_def resolve_def
      fs_ensureDir_def fs_writeFile_def split: sum.splits jsval.splits prod.splits if_splits)

text \<open>
  C7. For every argument value and every state, each executor resolves: with its success
  payload (\<open>{content}\<close>, \<open>{success, message}\<close>, \<open>{files}\<close>, \<open>{output}\<close>), or with an error
  payload whose text ends with the message of the exception that its \<open>try\<close> block raised. It
  never raises and is never left pending.
\<close>

theorem executors_never_raise:
  "(\<exists>t. (\<exists>c. readFile ev args s = (Ok (Content c), t))
         \<or> (\<exists>e. fst (readFile_try ev args (s\<lparr>calls := calls s @ [ReadFileCall args]\<rparr>)) = Throw e
               \<and> readFile ev args s = (Ok (Failure (lit ''Failed to read file: '' @ message e)), t)))
   \<and> (\<exists>t. (\<exists>m. writeFile ev args s = (Ok (Written m), t))
         \<or> (\<exists>e. fst (writeFile_try ev args (s\<lparr>calls := calls s @ [WriteFileCall args]\<rparr>)) = Throw e
               \<and> writeFile ev args s = (Ok (Failure (lit ''Failed to write file: '' @ message e)), t)))
   \<and> (\<exists>t. (\<exists>names. listFiles ev args s = (Ok (Files names), t))
         \<or> (\<exists>e. fst (listFiles_try ev args (s\<lparr>calls := calls s @ [ListFilesCall args]\<rparr>)) = Throw e
               \<and> listFiles ev args s = (Ok (Failure (lit ''Failed to list files: '' @ message e)), t)))
   \<and> (\<exists>t. (\<exists>out. executeCommand ev args s = (Ok (Output out), t))
         \<or> (\<exists>e. fst (executeCommand_try ev args (s\<lparr>calls := calls s @ [ExecuteCommandCall args]\<rparr>)) = Throw e
               \<and> executeCommand ev args s = (Ok (Failure (lit ''Command execution failed: '' @ message e)), t)))"
proof (intro conjI)
  show "\<exists>t. (\<exists>c. readFile ev args s = (Ok (Content c), t))
         \<or> (\<exists>e. fst (readFile_try ev args (s\<lparr>calls := calls s @ [ReadFileCall args]\<rparr>)) = Throw e
               \<and> readFile ev args s = (Ok (Failure (lit ''Failed to read file: '' @ message e)), t))"
    using readFile_try_cases [of ev args "s\<lparr>calls := calls s @ [ReadFileCall args]\<rparr>"]
    by (auto simp: readFile_def bindIO_def enter_def catchIO_returnIO_cases)
  show "\<exists>t. (\<exists>m. writeFile ev args s = (Ok (Written m), t))
         \<or> (\<exists>e. fst (writeFile_try ev args (s\<lparr>calls := calls s @ [WriteFileCall args]\<rparr>)) = Throw e
               \<and> writeFile ev args s = (Ok (Failure (lit ''Failed to write file: '' @ message e)), t))"
    using writeFile_try_cases [of ev args "s\<lparr>calls := calls s @ [WriteFileCall args]\<rparr>"]
    by (auto simp: writeFile_def bindIO_def enter_def catchIO_returnIO_cases)
  show "\<exists>t. (\<exists>names. listFiles ev args s = (Ok (Files names), t))
         \<or> (\<exists>e. fst (listFiles_try ev args (s\<lparr>calls := calls s @ [ListFilesCall args]\<rparr>)) = Throw e
               \<and> listFiles ev args s = (Ok (Failure (lit ''Failed to list files: '' @ message e)), t))"
    using listFiles_try_cases [of ev args "s\<lparr>calls := calls s @ [ListFilesCall args]\<rparr>"]
    by (auto simp: listFiles_def bindIO_def enter_def catchIO_returnIO_cases)
  show "\<exists>t. (\<exists>out. executeCommand ev args s = (Ok (Output out), t))
         \<or> (\<exists>e. fst (executeCommand_try ev args (s\<lparr>calls := calls s @ [ExecuteCommandCall args]\<rparr>)) = Throw e
               \<and> executeCommand ev args s = (Ok (Failure (lit ''Command execution failed: '' @ message e)), t))"
    using executeCommand_try_cases [of ev args "s\<lparr>calls := calls s @ [ExecuteCommandCall args]\<rparr>"]
    by (auto simp: executeCommand_def bindIO_def enter_def catchIO_returnIO_cases)
qed

section \<open>Writing, then reading\<close>

lemma map_of_update_same: "map_of (AList.update k v al) k = Some v"
  by (simp add: update_conv')

lemma lookup_store: "store n p bytes = Inr n' \<Longrightarrow> lookup n' p = Inr (File bytes)"
proof (induction n p bytes arbitrary: n' rule: store.induct)
  case (1 n bytes)
  then show ?case by simp
next
  case (2 c d ds bytes)
  then show ?case by simp
next
  case (3 es d bytes)
  then show ?case
    by (auto simp: map_of_update_same split: option.splits node.splits)
next
  case (4 es d v va bytes)
  then show ?case
    by (auto simp: map_of_update_same split: option.splits sum.splits)
qed

lemma writeFile_try_Ok:
  assumes "writeFile_try ev wargs s = (Ok r, t)"
  shows "\<exists>p content n.
           getField wargs (lit ''path'') = Inr (JStr p)
         \<and> getField wargs (lit ''content'') = Inr (JStr content)
         \<and> \<not> hasNul (path_resolve (cwd ev) p)
         \<and> store n (map encodeUtf8 (path_resolve (cwd ev) p)) (encodeUtf8 content) = Inr (disk t)"
proof -
  from assms obtain pv where pv: "getField wargs (lit ''path'') = Inr pv"
    by (cases "getField wargs (lit ''path'')")
      (auto simp: writeFile_try_def bindIO_def liftE_def throwIO_def)
  with assms obtain p where p: "pv = JStr p"
    by (cases pv) (auto simp: writeFile_try_def bindIO_def liftE_def returnIO_def throwIO_def resolve_def)
  let ?fp = "path_resolve (cwd ev) p"
  from assms pv p have nd: "\<not> hasNul (path_dirname ?fp)"
    by (auto simp: writeFile_try_def bindIO_def liftE_def returnIO_def throwIO_def resolve_def
        fs_ensureDir_def split: if_splits)
  from assms pv p nd obtain n where n: "mkdirp (disk s) (map encodeUtf8 (path_dirname ?fp)) = Inr n"
    by (cases "mkdirp (disk s) (map encodeUtf8 (path_dirname ?fp))")
      (auto simp: writeFile_try_def bindIO_def liftE_def returnIO_def throwIO_def resolve_def
        fs_ensureDir_def)
  from assms pv p nd n obtain cv where cv: "getField wargs (lit ''content'') = Inr cv"
    by (cases "getField wargs (lit ''content'')")
      (auto simp: writeFile_try_def bindIO_def liftE_def returnIO_def throwIO_def resolve_def
        fs_ensureDir_def)
  from assms pv p nd n cv obtain content where content: "cv = JStr content"
    by (cases cv)
      (auto simp: writeFile_try_def bindIO_def liftE_def returnIO_def throwIO_def resolve_def
        fs_ensureDir_def fs_writeFile_def)
  from assms pv p nd n cv content have nn: "\<not> hasNul ?fp"
    by (auto simp: writeFile_try_def bindIO_def liftE_def returnIO_def throwIO_def resolve_def
        fs_ensureDir_def fs_writeFile_def split: if_splits)
  from assms pv p nd n cv content nn
  have "store n (map encodeUtf8 ?fp) (encodeUtf8 content) = Inr (disk t)"
    by (cases "store n (map encodeUtf8 ?fp) (encodeUtf8 content)")
      (auto simp: writeFile_try_def bindIO_def liftE_def returnIO_def throwIO_def resolve_def
        fs_ensureDir_def fs_writeFile_def)
  with pv p cv content nn show ?thesis by blast
qed

lemma writeFile_Written:
  assumes "writeFile ev wargs s = (Ok (Written m), t)"
  shows "\<exists>p content n.
           getField wargs (lit ''path'') = Inr (JStr p)
         \<and> getField wargs (lit ''content'') = Inr (JStr content)
         \<and> \<not> hasNul (path_resolve (cwd ev) p)
         \<and> store n (map encodeUtf8 (path_resolve (cwd ev) p)) (encodeUtf8 content) = Inr (disk t)"
proof -
  from assms have "writeFile_try ev wargs (s\<lparr>calls := calls s @ [WriteFileCall wargs]\<rparr>) = (Ok (Written m), t)"
    by (auto simp: writeFile_def bindIO_def enter_def catchIO_returnIO_cases
        split: prod.splits outcome.splits)
  then show ?thesis by (rule writeFile_try_Ok)
qed

lemma readFile_after_store:
  assumes "getField rargs (lit ''path'') = Inr (JStr p)"
    and "\<not> hasNul (path_resolve (cwd ev) p)"
    and "lookup (disk t) (map encodeUtf8 (path_resolve (cwd ev) p)) = Inr (File bytes)"
  shows "fst (readFile ev rargs t) = Ok (Content (decodeUtf8 bytes))"
proof -
  from assms have "fst (readFile_try ev rargs (t\<lparr>calls := calls t @ [ReadFileCall rargs]\<rparr>))
      = Ok (Content (decodeUtf8 bytes))"
    by (simp add: readFile_try_def bindIO_def liftE_def returnIO_def resolve_def fs_readFile_def)
  then show ?thesis
    by (auto simp: readFile_def bindIO_def enter_def catchIO_returnIO_cases
        split: prod.splits outcome.splits)
qed

text \<open>
  C8, as amended. When \<open>writeFile\<close> resolved with its success payload, \<open>readFile\<close> of the same
  path, run in the state that \<open>writeFile\<close> left, resolves with the content that was written
  in which every lone surrogate has become U+FFFD: with exactly the content that was written
  when that is a well-formed string, one without a lone surrogate.
\<close>

theorem write_then_read_roundtrip:
  assumes "writeFile ev wargs s = (Ok (Written m), t)"
    and "getField rargs (lit ''path'') = getField wargs (lit ''path'')"
  shows "\<exists>content. getField wargs (lit ''content'') = Inr (JStr content)
                 \<and> fst (readFile ev rargs t) = Ok (Content (toWellFormed content))
                 \<and> (isWellFormed content \<longrightarrow> fst (readFile ev rargs t) = Ok (Content content))"
proof -
  from writeFile_Written [OF assms(1)] obtain p content n where
    p: "getField wargs (lit ''path'') = Inr (JStr p)" and
    c: "getField wargs (lit ''content'') = Inr (JStr content)" and
    nn: "\<not> hasNul (path_resolve (cwd ev) p)" and
    st: "store n (map encodeUtf8 (path_resolve (cwd ev) p)) (encodeUtf8 content) = Inr (disk t)"
    by blast
  from st have "lookup (disk t) (map encodeUtf8 (path_resolve (cwd ev) p)) = Inr (File (encodeUtf8 content))"
    by (rule lookup_store)
  with p assms(2) nn have "fst (readFile ev rargs t) = Ok (Content (decodeUtf8 (encodeUtf8 content)))"
    by (intro readFile_after_store) simp_all
  then have r: "fst (readFile ev rargs t) = Ok (Content (toWellFormed content))"
    by (simp add: decodeUtf8_encodeUtf8)
  then have "isWellFormed content \<longrightarrow> fst (readFile ev rargs t) = Ok (Content content)"
    by (simp add: toWellFormed_isWellFormed)
  with c r show ?thesis by blast
qed

text \<open>
  A note with an accented letter, a currency sign and an emoji (a surrogate pair) is well
  formed: it is stored as 15 bytes and read back as it was written.
\<close>

theorem write_then_read_roundtrip_witness:
  "writeFile sample_env
     (JObj [(lit ''path'', JStr (lit ''notes.txt'')),
            (lit ''content'', JStr (lit ''caf'' @ [0xE9, 0x20, 0x20AC, 0x35, 0x20, 0xD83D, 0xDE00]))])
     (initial (Dir []) [])
     = (Ok (Written (lit ''Successfully wrote to notes.txt'')),
        (initial (Dir [(''home'', Dir [(''notes.txt'',
            File (''caf'' @ [CHR 0xC3, CHR 0xA9, CHR 0x20, CHR 0xE2, CHR 0x82, CHR 0xAC, CHR 0x35, CHR 0x20,
                            CHR 0xF0, CHR 0x9F, CHR 0x98, CHR 0x80]))])]) [])
          \<lparr>calls := [WriteFileCall
             (JObj [(lit ''path'', JStr (lit ''notes.txt'')),
                    (lit ''content'', JStr (lit ''caf'' @ [0xE9, 0x20, 0x20AC, 0x35, 0x20, 0xD83D, 0xDE00]))])]\<rparr>)
   \<and> getField (JObj [(lit ''path'', JStr (lit ''notes.txt''))]) (lit ''path'')
       = getField (JObj [(lit ''path'', JStr (lit ''notes.txt'')),
                         (lit ''content'', JStr (lit ''caf'' @ [0xE9, 0x20, 0x20AC, 0x35, 0x20, 0xD83D, 0xDE00]))])
           (lit ''path'')
   \<and> isWellFormed (lit ''caf'' @ [0xE9, 0x20, 0x20AC, 0x35, 0x20, 0xD83D, 0xDE00])
   \<and> fst (readFile sample_env (JObj [(lit ''path'', JStr (lit ''notes.txt''))])
            ((initial (Dir [(''home'', Dir [(''notes.txt'',
                File (''caf'' @ [CHR 0xC3, CHR 0xA9, CHR 0x20, CHR 0xE2, CHR 0x82, CHR 0xAC, CHR 0x35, CHR 0x20,
                                CHR 0xF0, CHR 0x9F, CHR 0x98, CHR 0x80]))])]) [])
              \<lparr>calls := [WriteFileCall
                 (JObj [(lit ''path'', JStr (lit ''notes.txt'')),
                        (lit ''content'', JStr (lit ''caf'' @ [0xE9, 0x20, 0x20AC, 0x35, 0x20, 0xD83D, 0xDE00]))])]\<rparr>))
       = Ok (Content (lit ''caf'' @ [0xE9, 0x20, 0x20AC, 0x35, 0x20, 0xD83D, 0xDE00]))"
proof -
  let ?content = "lit ''caf'' @ [0xE9, 0x20, 0x20AC, 0x35, 0x20, 0xD83D, 0xDE00]"
  let ?wargs = "JObj [(lit ''path'', JStr (lit ''notes.txt'')), (lit ''content'', JStr ?content)]"
  let ?t = "(initial (Dir [(''home'', Dir [(''notes.txt'',
            File (''caf'' @ [CHR 0xC3, CHR 0xA9, CHR 0x20, CHR 0xE2, CHR 0x82, CHR 0xAC, CHR 0x35, CHR 0x20,
                            CHR 0xF0, CHR 0x9F, CHR 0x98, CHR 0x80]))])]) [])
          \<lparr>calls := [WriteFileCall ?wargs]\<rparr>"
  have h1: "writeFile sample_env ?wargs (initial (Dir []) [])
     = (Ok (Written (lit ''Successfully wrote to notes.txt'')), ?t)"
    by code_simp
  have h2: "getField (JObj [(lit ''path'', JStr (lit ''notes.txt''))]) (lit ''path'')
       = getField ?wargs (lit ''path'')"
    by simp
  have h3: "isWellFormed ?content" by code_simp
  from write_then_read_roundtrip [OF h1 h2] obtain content where
    c: "getField ?wargs (lit ''content'') = Inr (JStr content)"
    and r: "isWellFormed content \<longrightarrow>
              fst (readFile sample_env (JObj [(lit ''path'', JStr (lit ''notes.txt''))]) ?t) = Ok (Content content)"
    by blast
  from c have "content = ?content" by simp
  with r h3 have "fst (readFile sample_env (JObj [(lit ''path'', JStr (lit ''notes.txt''))]) ?t)
      = Ok (Content ?content)"
    by blast
  with h1 h2 h3 show ?thesis by blast
qed

text \<open>
  C8 as stated holds for every content string. Here the content is \<open>hi\<close> followed by a lone
  high surrogate: \<open>writeFile\<close> resolves with its success payload, the file holds that
  surrogate as the three bytes of U+FFFD, and \<open>readFile\<close> of the same path resolves with a
  content that ends in U+FFFD, not with the content that was written.
\<close>

theorem lone_surrogate_is_not_read_back_counterexample:
  "writeFile sample_env
     (JObj [(lit ''path'', JStr (lit ''notes.txt'')), (lit ''content'', JStr (lit ''hi'' @ [0xD83D]))])
     (initial (Dir []) [])
     = (Ok (Written (lit ''Successfully wrote to notes.txt'')),
        (initial (Dir [(''home'', Dir [(''notes.txt'', File (''hi'' @ [CHR 0xEF, CHR 0xBF, CHR 0xBD]))])]) [])
          \<lparr>calls := [WriteFileCall
             (JObj [(lit ''path'', JStr (lit ''notes.txt'')), (lit ''content'', JStr (lit ''hi'' @ [0xD83D]))])]\<rparr>)
   \<and> fst (readFile sample_env (JObj [(lit ''path'', JStr (lit ''notes.txt''))])
            ((initial (Dir [(''home'', Dir [(''notes.txt'', File (''hi'' @ [CHR 0xEF, CHR 0xBF, CHR 0xBD]))])]) [])
              \<lparr>calls := [WriteFileCall
                 (JObj [(lit ''path'', JStr (lit ''notes.txt'')), (lit ''content'', JStr (lit ''hi'' @ [0xD83D]))])]\<rparr>))
       = Ok (Content (lit ''hi'' @ [0xFFFD]))
   \<and> lit ''hi'' @ [0xFFFD] \<noteq> lit ''hi'' @ [0xD83D]"
  by code_simp


section \<open>The direct file creation\<close>

lemma writeFile_resolves: "\<exists>result t. writeFile ev args s = (Ok result, t)"
  using writeFile_try_cases [of ev args "s\<lparr>calls := calls s @ [WriteFileCall args]\<rparr>"]
  by (auto simp: writeFile_def bindIO_def enter_def catchIO_returnIO_cases)

lemma stdin_requests_writeFile:
  "stdin (snd (writeFile ev args s)) = stdin s"
  "requests (snd (writeFile ev args s)) = requests s"
proof -
  have "frame (\<lambda>s t. stdin t = stdin s) (writeFile ev args)"
    "frame (\<lambda>s t. requests t = requests s) (writeFile ev args)"
    by (rule frame_executors; simp add: stable_eq)+
  then show "stdin (snd (writeFile ev args s)) = stdin s"
    "requests (snd (writeFile ev args s)) = requests s"
    by (simp_all add: frame_def)
qed

lemma startsWith_replace_first:
  "startsWith msg pat \<Longrightarrow> replace_first msg pat rep = rep @ drop (length pat) msg"
  by (cases msg) (auto elim: startsWith.elims)

text \<open>
  What \<open>trim\<close> gives: the string is the trimmed string between two runs of white space, and
  the trimmed string, unless it is empty, neither starts nor ends with white space.
\<close>

lemma trim_between:
  "\<exists>before after. s = before @ trim s @ after \<and> list_all isWhiteSpace before \<and> list_all isWhiteSpace after"
proof -
  let ?m = "dropWhile isWhiteSpace s"
  have 1: "s = takeWhile isWhiteSpace s @ ?m" by simp
  have "rev (takeWhile isWhiteSpace (rev ?m) @ dropWhile isWhiteSpace (rev ?m)) = ?m"
    by (simp only: takeWhile_dropWhile_id rev_rev_ident)
  then have 2: "trim s @ rev (takeWhile isWhiteSpace (rev ?m)) = ?m"
    by (simp only: rev_append trim_def)
  have "s = takeWhile isWhiteSpace s @ trim s @ rev (takeWhile isWhiteSpace (rev ?m))"
    using 1 2 by simp
  moreover have "list_all isWhiteSpace (takeWhile isWhiteSpace s)"
    by (auto simp: list_all_iff dest: set_takeWhileD)
  moreover have "list_all isWhiteSpace (rev (takeWhile isWhiteSpace (rev ?m)))"
    by (auto simp: list_all_iff dest: set_takeWhileD)
  ultimately show ?thesis by blast
qed

lemma last_dropWhile: "dropWhile P xs \<noteq> [] \<Longrightarrow> last (dropWhile P xs) = last xs"
  by (induction xs) (auto split: if_splits)

lemma trim_ends:
  assumes "trim s \<noteq> []"
  shows "\<not> isWhiteSpace (hd (trim s))" and "\<not> isWhiteSpace (last (trim s))"
proof -
  let ?m = "dropWhile isWhiteSpace s"
  let ?r = "dropWhile isWhiteSpace (rev ?m)"
  from assms have r: "?r \<noteq> []" by (simp add: trim_def)
  have m: "?m \<noteq> []"
  proof
    assume "?m = []"
    then have "?r = []" by (simp only: rev.simps(1) dropWhile.simps(1))
    with r show False by blast
  qed
  have "hd (trim s) = last ?r" using r by (simp add: trim_def hd_rev)
  also have "\<dots> = last (rev ?m)" using r by (rule last_dropWhile)
  also have "\<dots> = hd ?m" using m by (simp add: last_rev)
  finally have "hd (trim s) = hd ?m" .
  moreover have "\<not> isWhiteSpace (hd ?m)" using m by (rule hd_dropWhile)
  ultimately show "\<not> isWhiteSpace (hd (trim s))" by simp
  have "last (trim s) = hd ?r" using r by (simp add: trim_def last_rev)
  moreover have "\<not> isWhiteSpace (hd ?r)" using r by (rule hd_dropWhile)
  ultimately show "\<not> isWhiteSpace (last (trim s))" by simp
qed

text \<open>
  C10. Every initial message that starts with \<open>create \<close> and contains \<open>.txt\<close> anywhere takes
  the direct path: \<open>writeFile\<close> is entered once, with empty content and with the path that is
  the whole message without its leading \<open>create \<close> (the first occurrence of it), trimmed:
  what follows the first seven characters of the message is that path between two runs of
  white space, and the path, unless it is empty, neither starts nor ends with white space.
  No line is read, no request is sent, and the process exits. With the credential present
  that is what the process does. So \<open>create a.txt and b.txt\<close> writes the one file
  \<open>a.txt and b.txt\<close>.
\<close>

theorem create_bypass_condition:
  fixes argv :: "jstring list"
  defines "initialMessage \<equiv> join (lit '' '') argv"
  defines "filename \<equiv> trim (replace_first initialMessage (lit ''create '') [])"
  defines "writeArgs \<equiv> JObj [(lit ''path'', JStr filename), (lit ''content'', JStr [])]"
  assumes "startsWith initialMessage (lit ''create '')"
    and "includes_str initialMessage (lit ''.txt'')"
  shows "(\<exists>before after.
            drop 7 initialMessage = before @ filename @ after
          \<and> list_all isWhiteSpace before \<and> list_all isWhiteSpace after)
       \<and> (filename \<noteq> [] \<longrightarrow> \<not> isWhiteSpace (hd filename) \<and> \<not> isWhiteSpace (last filename))
       \<and> (\<exists>result t.
             writeFile ev writeArgs (s\<lparr>console := console s @ [Log [S (lit ''Creating file: '' @ filename)]]\<rparr>)
               = (Ok result, t)
           \<and> cli ev argv s =
               (ProcessExit 0, t\<lparr>console := console t @ [Log [S (lit ''File creation result:''), Pretty result]]\<rparr>)
           \<and> calls t = calls s @ [WriteFileCall writeArgs]
           \<and> stdin t = stdin s
           \<and> requests t = requests s)
       \<and> (\<forall>key. key \<noteq> [] \<longrightarrow> main ev (Some key) argv s = cli ev argv s)"
proof (intro conjI allI impI)
  have f: "filename = trim (drop 7 initialMessage)"
    using assms(4) by (simp add: filename_def startsWith_replace_first eval_nat_numeral)
  show "\<exists>before after.
            drop 7 initialMessage = before @ filename @ after
          \<and> list_all isWhiteSpace before \<and> list_all isWhiteSpace after"
    unfolding f by (rule trim_between)
  show "\<not> isWhiteSpace (hd filename)" if "filename \<noteq> []"
    using that unfolding f by (rule trim_ends)
  show "\<not> isWhiteSpace (last filename)" if "filename \<noteq> []"
    using that unfolding f by (rule trim_ends)
next
  let ?s1 = "s\<lparr>console := console s @ [Log [S (lit ''Creating file: '' @ filename)]]\<rparr>"
  obtain result t where w: "writeFile ev writeArgs ?s1 = (Ok result, t)"
    using writeFile_resolves by blast
  have m: "cli ev argv s =
      (ProcessExit 0, t\<lparr>console := console t @ [Log [S (lit ''File creation result:''), Pretty result]]\<rparr>)"
    using assms(4,5) w
    by (simp add: cli_def Let_def bindIO_def console_log_def filename_def writeArgs_def
        initialMessage_def)
  have c: "calls t = calls s @ [WriteFileCall writeArgs]"
    using calls_executors(1) [of ev writeArgs ?s1] w by simp
  have i: "stdin t = stdin s" "requests t = requests s"
    using stdin_requests_writeFile [of ev writeArgs ?s1] w by simp_all
  from w m c i show "\<exists>result t.
             writeFile ev writeArgs (s\<lparr>console := console s @ [Log [S (lit ''Creating file: '' @ filename)]]\<rparr>)
               = (Ok result, t)
           \<and> cli ev argv s =
               (ProcessExit 0, t\<lparr>console := console t @ [Log [S (lit ''File creation result:''), Pretty result]]\<rparr>)
           \<and> calls t = calls s @ [WriteFileCall writeArgs]
           \<and> stdin t = stdin s
           \<and> requests t = requests s"
    by blast
next
  fix key :: jstring
  assume "key \<noteq> []"
  then show "main ev (Some key) argv s = cli ev argv s"
    by (simp add: main_def)
qed

text \<open>
  The arguments \<open>create\<close>, \<open> a.txt\<close> (with a no-break space in front), \<open>and\<close>, \<open>b.txt\<close> and a
  last one of an ideographic space and a tab give a message whose rest starts with one
  white space character and ends with three. The one file written is \<open>a.txt and b.txt\<close>:
  the white space at both ends is gone, the spaces inside are kept.
\<close>

theorem create_bypass_condition_witness:
  "startsWith (join (lit '' '') [lit ''create'', 0xA0 # lit ''a.txt'', lit ''and'', lit ''b.txt'', [0x3000, 0x09]])
     (lit ''create '')
   \<and> includes_str (join (lit '' '') [lit ''create'', 0xA0 # lit ''a.txt'', lit ''and'', lit ''b.txt'', [0x3000, 0x09]])
        (lit ''.txt'')
   \<and> lit ''key'' \<noteq> []
   \<and> drop 7 (join (lit '' '') [lit ''create'', 0xA0 # lit ''a.txt'', lit ''and'', lit ''b.txt'', [0x3000, 0x09]])
       = [0xA0] @ lit ''a.txt and b.txt'' @ [0x20, 0x3000, 0x09]
   \<and> trim (replace_first
              (join (lit '' '') [lit ''create'', 0xA0 # lit ''a.txt'', lit ''and'', lit ''b.txt'', [0x3000, 0x09]])
              (lit ''create '') [])
       = lit ''a.txt and b.txt''
   \<and> main sample_env (Some (lit ''key''))
        [lit ''create'', 0xA0 # lit ''a.txt'', lit ''and'', lit ''b.txt'', [0x3000, 0x09]]
        (initial (Dir []) [lit ''yes''])
     = (ProcessExit 0,
        \<lparr>chatHistory = [], rlClosed = False,
         console = [Log [S (lit ''Creating file: a.txt and b.txt'')],
                    Log [S (lit ''File creation result:''),
                         Pretty (Written (lit ''Successfully wrote to a.txt and b.txt''))]],
         stdin = [lit ''yes''],
         disk = Dir [(''home'', Dir [(''a.txt and b.txt'', File [])])],
         calls = [WriteFileCall (JObj [(lit ''path'', JStr (lit ''a.txt and b.txt'')), (lit ''content'', JStr [])])],
         requests = []\<rparr>)"
proof -
  let ?argv = "[lit ''create'', 0xA0 # lit ''a.txt'', lit ''and'', lit ''b.txt'', [0x3000, 0x09]]"
  let ?s = "initial (Dir []) [lit ''yes'']"
  have h3: "startsWith (join (lit '' '') ?argv) (lit ''create '')" by code_simp
  have h4: "includes_str (join (lit '' '') ?argv) (lit ''.txt'')" by code_simp
  have h5: "lit ''key'' \<noteq> []" by (simp add: lit_def)
  have rest: "drop 7 (join (lit '' '') ?argv) = [0xA0] @ lit ''a.txt and b.txt'' @ [0x20, 0x3000, 0x09]"
    by code_simp
  have name: "trim (replace_first (join (lit '' '') ?argv) (lit ''create '') []) = lit ''a.txt and b.txt''"
    by code_simp
  note bypass = create_bypass_condition [OF h3 h4, of sample_env ?s]
  from bypass [THEN conjunct2, THEN conjunct2, THEN conjunct1]
  obtain result t where
    w: "writeFile sample_env (JObj [(lit ''path'', JStr (lit ''a.txt and b.txt'')), (lit ''content'', JStr [])])
          (?s\<lparr>console := console ?s @ [Log [S (lit ''Creating file: '' @ lit ''a.txt and b.txt'')]]\<rparr>)
        = (Ok result, t)"
    and m: "cli sample_env ?argv ?s
          = (ProcessExit 0, t\<lparr>console := console t @ [Log [S (lit ''File creation result:''), Pretty result]]\<rparr>)"
    unfolding name by blast
  have k: "main sample_env (Some (lit ''key'')) ?argv ?s = cli sample_env ?argv ?s"
    using bypass [THEN conjunct2, THEN conjunct2, THEN conjunct2, rule_format, OF h5] .
  have "writeFile sample_env (JObj [(lit ''path'', JStr (lit ''a.txt and b.txt'')), (lit ''content'', JStr [])])
          (?s\<lparr>console := console ?s @ [Log [S (lit ''Creating file: '' @ lit ''a.txt and b.txt'')]]\<rparr>)
        = (Ok (Written (lit ''Successfully wrote to a.txt and b.txt'')),
           \<lparr>chatHistory = [], rlClosed = False,
            console = [Log [S (lit ''Creating file: a.txt and b.txt'')]],
            stdin = [lit ''yes''],
            disk = Dir [(''home'', Dir [(''a.txt and b.txt'', File [])])],
            calls = [WriteFileCall (JObj [(lit ''path'', JStr (lit ''a.txt and b.txt'')), (lit ''content'', JStr [])])],
            requests = []\<rparr>)"
    by code_simp
  with w have "result = Written (lit ''Successfully wrote to a.txt and b.txt'')"
    and "t = \<lparr>chatHistory = [], rlClosed = False,
            console = [Log [S (lit ''Creating file: a.txt and b.txt'')]],
            stdin = [lit ''yes''],
            disk = Dir [(''home'', Dir [(''a.txt and b.txt'', File [])])],
            calls = [WriteFileCall (JObj [(lit ''path'', JStr (lit ''a.txt and b.txt'')), (lit ''content'', JStr [])])],
            requests = []\<rparr>"
    by simp_all
  with m k h3 h4 h5 rest name show ?thesis by simp
qed

text \<open>
  C3 says that the process exits with code 1 when the write of the direct path failed. Here
  \<open>notes.txt\<close> is a directory, so the write fails with \<open>EISDIR\<close>; \<open>writeFile\<close> resolves with the
  error payload, \<open>then\<close> runs, and the exit code is 0.
\<close>

theorem create_bypass_failed_write_exits_0:
  "main sample_env (Some (lit ''key'')) [lit ''create'', lit ''notes.txt'']
      (initial (Dir [(''home'', Dir [(''notes.txt'', Dir [])])]) [])
     = (ProcessExit 0,
        \<lparr>chatHistory = [], rlClosed = False,
         console = [Log [S (lit ''Creating file: notes.txt'')],
                    Log [S (lit ''File creation result:''),
                         Pretty (Failure (lit ''Failed to write file: EISDIR: illegal operation on a directory, open /home/notes.txt''))]],
         stdin = [],
         disk = Dir [(''home'', Dir [(''notes.txt'', Dir [])])],
         calls = [WriteFileCall (JObj [(lit ''path'', JStr (lit ''notes.txt'')), (lit ''content'', JStr [])])],
         requests = []\<rparr>)"
  by code_simp


section \<open>The session\<close>

lemma stable_extends: "stable (\<lambda>s t. \<exists>more. chatHistory t = chatHistory s @ more)"
  by (auto simp: stable_def)

lemma extends_pushHistory: "frame (\<lambda>s t. \<exists>more. chatHistory t = chatHistory s @ more) (pushHistory t)"
  by (simp add: frame_def pushHistory_def)

lemma requests_respond: "requests (snd (respond ev result s)) = requests s"
proof -
  have "frame (\<lambda>s t. requests t = requests s) (respond ev result)"
    by (rule frame_respond) (simp_all add: stable_eq frame_pushHistory frame_question)
  then show ?thesis by (simp add: frame_def)
qed

lemma history_respond: "\<exists>more. chatHistory (snd (respond ev result s)) = chatHistory s @ more"
proof -
  have "frame (\<lambda>s t. \<exists>more. chatHistory t = chatHistory s @ more) (respond ev result)"
    by (rule frame_respond) (simp_all add: stable_extends extends_pushHistory frame_question)
  then show ?thesis by (simp add: frame_def)
qed

lemma processUserInput_exit:
  assumes "toLowerCase ev userInput = lit ''exit''"
  shows "processUserInput ev userInput s =
           (Ok False, s\<lparr>console := console s @ [Log [S (lit ''Goodbye!'')]], rlClosed := True\<rparr>)"
  using assms
  by (simp add: processUserInput_def bindIO_def console_log_def rl_close_def returnIO_def)

lemma processUserInput_other:
  assumes "toLowerCase ev userInput \<noteq> lit ''exit''"
  shows "requests (snd (processUserInput ev userInput s)) =
           requests s @ [chatHistory s @ [Turn (lit ''user'') userInput]]"
    and "\<exists>more. chatHistory (snd (processUserInput ev userInput s)) =
           chatHistory s @ [Turn (lit ''user'') userInput] @ more"
proof -
  let ?s1 = "s\<lparr>chatHistory := chatHistory s @ [Turn (lit ''user'') userInput]\<rparr>"
  let ?s2 = "?s1\<lparr>requests := requests s @ [chatHistory s @ [Turn (lit ''user'') userInput]]\<rparr>"
  let ?h = "\<lambda>error. bindIO (console_error [S (lit ''Error:''), E error]) (\<lambda>_. returnIO True)"
  have p: "processUserInput ev userInput s =
             catchIO (bindIO (model_generateContentStream ev) (respond ev)) ?h ?s1"
    using assms by (simp add: processUserInput_def bindIO_def pushHistory_def)
  show "requests (snd (processUserInput ev userInput s)) =
           requests s @ [chatHistory s @ [Turn (lit ''user'') userInput]]"
  proof (cases "generateContentStream ev (chatHistory ?s1)")
    case (Inl e)
    then show ?thesis
      unfolding p
      by (simp add: catchIO_def bindIO_def model_generateContentStream_def console_error_def returnIO_def)
  next
    case (Inr result)
    obtain r t where rt: "respond ev result ?s2 = (r, t)" by (cases "respond ev result ?s2")
    with requests_respond [of ev result ?s2] have "requests t = requests ?s2" by simp
    with Inr rt show ?thesis
      unfolding p
      by (cases r)
        (simp_all add: catchIO_def bindIO_def model_generateContentStream_def console_error_def returnIO_def)
  qed
  show "\<exists>more. chatHistory (snd (processUserInput ev userInput s)) =
           chatHistory s @ [Turn (lit ''user'') userInput] @ more"
  proof (cases "generateContentStream ev (chatHistory ?s1)")
    case (Inl e)
    then show ?thesis
      unfolding p
      by (simp add: catchIO_def bindIO_def model_generateContentStream_def console_error_def returnIO_def)
  next
    case (Inr result)
    obtain r t where rt: "respond ev result ?s2 = (r, t)" by (cases "respond ev result ?s2")
    with history_respond [of ev result ?s2] obtain more where "chatHistory t = chatHistory ?s2 @ more"
      by auto
    with Inr rt show ?thesis
      unfolding p
      by (cases r)
        (simp_all add: catchIO_def bindIO_def model_generateContentStream_def console_error_def returnIO_def)
  qed
qed

text \<open>
  C9. When the line read, in lower case, is \<open>exit\<close>: \<open>processUserInput\<close> prints the farewell,
  closes the input interface and resolves with \<open>false\<close>, and \<open>askQuestion\<close>, having read that line
  at its prompt, leaves the process in exactly that state: it does not run again, so no
  request is sent then or later. On every other line a \<open>user\<close> turn is appended to the
  conversation and one request is sent, whose contents are the conversation with that turn.
\<close>

theorem exit_closes_session:
  "(toLowerCase ev userInput = lit ''exit'' \<longrightarrow>
      processUserInput ev userInput s =
        (Ok False, s\<lparr>console := console s @ [Log [S (lit ''Goodbye!'')]], rlClosed := True\<rparr>)
      \<and> (\<forall>rest. stdin s = userInput # rest \<longrightarrow>
            askQuestion ev s =
              s\<lparr>console := console s @ [Prompt (newline @ lit ''You: ''), Log [S (lit ''Goodbye!'')]],
                stdin := rest, rlClosed := True\<rparr>))
   \<and> (toLowerCase ev userInput \<noteq> lit ''exit'' \<longrightarrow>
      requests (snd (processUserInput ev userInput s)) =
        requests s @ [chatHistory s @ [Turn (lit ''user'') userInput]]
      \<and> (\<exists>more. chatHistory (snd (processUserInput ev userInput s)) =
                   chatHistory s @ [Turn (lit ''user'') userInput] @ more))"
proof (intro conjI impI allI)
  assume "toLowerCase ev userInput = lit ''exit''"
  then show "processUserInput ev userInput s =
        (Ok False, s\<lparr>console := console s @ [Log [S (lit ''Goodbye!'')]], rlClosed := True\<rparr>)"
    by (rule processUserInput_exit)
next
  fix rest
  assume e: "toLowerCase ev userInput = lit ''exit''" and i: "stdin s = userInput # rest"
  show "askQuestion ev s =
              s\<lparr>console := console s @ [Prompt (newline @ lit ''You: ''), Log [S (lit ''Goodbye!'')]],
                stdin := rest, rlClosed := True\<rparr>"
    by (subst askQuestion.simps) (simp add: question_def i processUserInput_exit [OF e])
next
  assume "toLowerCase ev userInput \<noteq> lit ''exit''"
  then show "requests (snd (processUserInput ev userInput s)) =
        requests s @ [chatHistory s @ [Turn (lit ''user'') userInput]]"
    by (rule processUserInput_other)
next
  assume "toLowerCase ev userInput \<noteq> lit ''exit''"
  then show "\<exists>more. chatHistory (snd (processUserInput ev userInput s)) =
                   chatHistory s @ [Turn (lit ''user'') userInput] @ more"
    by (rule processUserInput_other)
qed

theorem exit_closes_session_witness:
  "toLowerCase sample_env (lit ''EXIT'') = lit ''exit''
   \<and> stdin (initial (Dir []) [lit ''EXIT'', lit ''ignored'']) = lit ''EXIT'' # [lit ''ignored'']
   \<and> processUserInput sample_env (lit ''EXIT'') (initial (Dir []) [])
       = (Ok False, (initial (Dir []) [])\<lparr>console := [Log [S (lit ''Goodbye!'')]], rlClosed := True\<rparr>)
   \<and> askQuestion sample_env (initial (Dir []) [lit ''EXIT'', lit ''ignored''])
       = (initial (Dir []) [lit ''ignored''])
           \<lparr>console := [Prompt (newline @ lit ''You: ''), Log [S (lit ''Goodbye!'')]], rlClosed := True\<rparr>
   \<and> toLowerCase sample_env (lit ''hi'') \<noteq> lit ''exit''
   \<and> requests (snd (processUserInput sample_env (lit ''hi'') (initial (Dir []) []))) = [[Turn (lit ''user'') (lit ''hi'')]]"
proof -
  have h1: "toLowerCase sample_env (lit ''EXIT'') = lit ''exit''" by code_simp
  have h2: "stdin (initial (Dir []) [lit ''EXIT'', lit ''ignored'']) = lit ''EXIT'' # [lit ''ignored'']"
    by (simp add: initial_def)
  have h3: "toLowerCase sample_env (lit ''hi'') \<noteq> lit ''exit''" by code_simp
  have a: "processUserInput sample_env (lit ''EXIT'') (initial (Dir []) [])
       = (Ok False, (initial (Dir []) [])\<lparr>console := [Log [S (lit ''Goodbye!'')]], rlClosed := True\<rparr>)"
    using exit_closes_session [of sample_env "lit ''EXIT''" "initial (Dir []) []",
        THEN conjunct1, rule_format, OF h1, THEN conjunct1]
    by (simp add: initial_def)
  have b: "askQuestion sample_env (initial (Dir []) [lit ''EXIT'', lit ''ignored''])
       = (initial (Dir []) [lit ''ignored''])
           \<lparr>console := [Prompt (newline @ lit ''You: ''), Log [S (lit ''Goodbye!'')]], rlClosed := True\<rparr>"
    using exit_closes_session [of sample_env "lit ''EXIT''" "initial (Dir []) [lit ''EXIT'', lit ''ignored'']",
        THEN conjunct1, rule_format, OF h1, THEN conjunct2, rule_format, OF h2]
    by (simp add: initial_def)
  have c: "requests (snd (processUserInput sample_env (lit ''hi'') (initial (Dir []) []))) = [[Turn (lit ''user'') (lit ''hi'')]]"
    using exit_closes_session [of sample_env "lit ''hi''" "initial (Dir []) []",
        THEN conjunct2, rule_format, OF h3, THEN conjunct1]
    by (simp add: initial_def)
  from h1 h2 h3 a b c show ?thesis by blast
qed

section \<open>Dispatching the retained calls\<close>

lemma consumeStream_run:
  "consumeStream chunks aiResponse toolCalls s =
     (Ok (aiResponse @ concat (map chunkText chunks),
          last (toolCalls # filter (\<lambda>batch. batch \<noteq> []) (List.map_filter functionCalls chunks))),
      s\<lparr>console := console s @ map Stdout (filter (\<lambda>x. x \<noteq> []) (map chunkText chunks))\<rparr>)"
proof (induction chunks arbitrary: aiResponse toolCalls s)
  case Nil
  show ?case by (simp add: returnIO_def List.map_filter_simps)
next
  case (Cons ch chunks)
  show ?case
    by (cases "functionCalls ch")
      (simp_all add: Cons.IH bindIO_def stdout_write_def retain_def List.map_filter_simps)
qed

text \<open>
  C5 says that the N calls of the retained batch are dispatched, in order, each result being
  appended to the conversation before the next call is dispatched. Whatever the stream
  carries and whatever the remote model is, a completed stream ends in one of two ways: with
  no retained call the response is done; with a retained batch of one call or more, the loop
  ends at \<open>JSON.parse\<close> of the arguments of the first call, with a \<open>SyntaxError\<close>: the state
  then differs from the one before only in the \<open>model\<close> turn and in what was shown, so
  no executor was entered and no \<open>function\<close> turn was appended. Here the model asks, after
  its text, for \<open>readFile\<close> of \<open>notes.txt\<close> and then for \<open>listFiles\<close> of the working
  directory: neither call is dispatched, and the handler of \<open>processUserInput\<close> logs the error.
\<close>

theorem retained_calls_are_not_dispatched:
  "(let toolCalls = last ([] # filter (\<lambda>batch. batch \<noteq> []) (List.map_filter functionCalls chunks));
        answered = s\<lparr>chatHistory := chatHistory s @ [Turn (lit ''model'') (concat (map chunkText chunks))],
                     console := console s @ [Log [S (newline @ lit ''Assistant: '')]]
                                @ map Stdout (filter (\<lambda>x. x \<noteq> []) (map chunkText chunks))
                                @ [Log [S newline]]\<rparr>
    in respond ev (chunks, None) s =
         (if toolCalls = [] then (Ok True, answered)
          else (Throw (Error (lit ''Unexpected token o in JSON at position 1'')),
                answered\<lparr>console := console answered @ [Log [S (newline @ lit ''Executing tool calls...'')]]\<rparr>)))
   \<and> processUserInput sample_calling_env (lit ''go'')
        (initial (Dir [(''home'', Dir [(''notes.txt'', File ''remember'')])]) [lit ''yes'', lit ''yes''])
     = (Ok True,
        \<lparr>chatHistory = [Turn (lit ''user'') (lit ''go''), Turn (lit ''model'') (lit ''Reading.'')],
         rlClosed = False,
         console = [Log [S (newline @ lit ''Assistant: '')], Stdout (lit ''Reading.''), Log [S newline],
                    Log [S (newline @ lit ''Executing tool calls...'')],
                    LogError [S (lit ''Error:''), E (Error (lit ''Unexpected token o in JSON at position 1''))]],
         stdin = [lit ''yes'', lit ''yes''],
         disk = Dir [(''home'', Dir [(''notes.txt'', File ''remember'')])],
         calls = [],
         requests = [[Turn (lit ''user'') (lit ''go'')]]\<rparr>)"
proof
  show "let toolCalls = last ([] # filter (\<lambda>batch. batch \<noteq> []) (List.map_filter functionCalls chunks));
        answered = s\<lparr>chatHistory := chatHistory s @ [Turn (lit ''model'') (concat (map chunkText chunks))],
                     console := console s @ [Log [S (newline @ lit ''Assistant: '')]]
                                @ map Stdout (filter (\<lambda>x. x \<noteq> []) (map chunkText chunks))
                                @ [Log [S newline]]\<rparr>
    in respond ev (chunks, None) s =
         (if toolCalls = [] then (Ok True, answered)
          else (Throw (Error (lit ''Unexpected token o in JSON at position 1'')),
                answered\<lparr>console := console answered @ [Log [S (newline @ lit ''Executing tool calls...'')]]\<rparr>))"
  proof (cases "last ([] # filter (\<lambda>batch. batch \<noteq> []) (List.map_filter functionCalls chunks))")
    case Nil
    then show ?thesis
      by (simp add: Let_def respond_def bindIO_def console_log_def consumeStream_run returnIO_def
          pushHistory_def)
  next
    case (Cons toolCall rest)
    then show ?thesis
      by (simp add: Let_def respond_def bindIO_def console_log_def consumeStream_run returnIO_def
          pushHistory_def liftE_def throwIO_def JSON_parse_def)
  qed
  show "processUserInput sample_calling_env (lit ''go'')
        (initial (Dir [(''home'', Dir [(''notes.txt'', File ''remember'')])]) [lit ''yes'', lit ''yes''])
     = (Ok True,
        \<lparr>chatHistory = [Turn (lit ''user'') (lit ''go''), Turn (lit ''model'') (lit ''Reading.'')],
         rlClosed = False,
         console = [Log [S (newline @ lit ''Assistant: '')], Stdout (lit ''Reading.''), Log [S newline],
                    Log [S (newline @ lit ''Executing tool calls...'')],
                    LogError [S (lit ''Error:''), E (Error (lit ''Unexpected token o in JSON at position 1''))]],
         stdin = [lit ''yes'', lit ''yes''],
         disk = Dir [(''home'', Dir [(''notes.txt'', File ''remember'')])],
         calls = [],
         requests = [[Turn (lit ''user'') (lit ''go'')]]\<rparr>)"
    by code_simp
qed


end
